theory Spec2Isabelle
  imports Main "HOL-Library.Word"
begin

unbundle bit_operations_syntax

section \<open>Bytes, buffers and failures\<close>

text \<open>
  The decoder of \<^verbatim>\<open>src/read_fpod.cpp\<close> works on \<^verbatim>\<open>std::vector<uint8_t>\<close>
  buffers. A byte is an 8-bit word, a buffer a list of bytes. Sizes and offsets
  (\<^verbatim>\<open>size_t\<close>) are natural numbers; the one place where the source subtracts
  sizes (\<^verbatim>\<open>eof\<close>) has the 64-bit wrap-around written out. Sums of sizes are
  taken without wrap-around: every call site passes offsets of at most 260 and a
  vector in memory has far fewer than \<open>2^64\<close> bytes.

  Reading or writing a vector outside its bounds is undefined behaviour in the source;
  in the model every such access is the failure \<open>OutOfBounds\<close>.
\<close>

type_synonym byte = "8 word"

datatype error =
    OutOfBounds   \<comment> \<open>an index outside a vector\<close>
  | EmptyBack     \<comment> \<open>\<^verbatim>\<open>back()\<close> of an empty vector\<close>
  | NoSuchName    \<comment> \<open>a name missing from the header list\<close>
  | BadRange      \<comment> \<open>\<^verbatim>\<open>Rcpp::seq\<close> with start above end\<close>

text \<open>\<^verbatim>\<open>eof\<close>: at least \<^verbatim>\<open>buf.size() - 5\<close> bytes equal 255, the subtraction in \<^verbatim>\<open>size_t\<close>.\<close>

definition eof :: "byte list \<Rightarrow> bool" where
  "eof buf =
     (let eof_code = 255;
          eof_count = count_list buf eof_code
      in eof_count \<ge> (length buf + 2 ^ 64 - 5) mod 2 ^ 64)"

text \<open>
  \<^verbatim>\<open>constructInt<T>\<close>: the result type \<open>T\<close> is a word of any width; the loop over
  \<open>i = 0 .. size - 1\<close> is a fold over \<open>[0..<size']\<close> (the parameter \<^verbatim>\<open>size\<close> is
  written \<open>size'\<close>). The guard is the source's
  \<^verbatim>\<open>offset+size < buf.size()\<close>; under it every read is inside the buffer.
\<close>

definition constructInt :: "byte list \<Rightarrow> nat \<Rightarrow> nat \<Rightarrow> 'a::len word" where
  "constructInt buf offset size' =
     (if offset + size' < length buf
      then fold (\<lambda>i res. push_bit 8 res OR ucast (buf ! (offset + i))) [0..<size'] 0
      else 0)"

text \<open>The value the specification speaks of: the bytes of a field read most significant first.\<close>

definition big_endian :: "byte list \<Rightarrow> nat" where
  "big_endian bs = foldl (\<lambda>acc b. acc * 256 + unat b) 0 bs"

text \<open>\<^verbatim>\<open>getBufsize\<close>: header and data block sizes by file extension.\<close>

definition getBufsize :: "string \<Rightarrow> nat \<times> nat" where
  "getBufsize ext =
     (if ext = ''CP1'' then (360, 10)
      else if ext = ''CP3'' then (720, 40)
      else (1024, 16))"

section \<open>Species codes\<close>

definition cpod_codes :: "(byte \<times> string) list" where
  "cpod_codes =
     [(0, ''NBHF''), (1, ''NBHF''), (2, ''OtherCet''), (3, ''OtherCet''),
      (4, ''Unclassed''), (5, ''Unclassed''), (6, ''Sonar''), (7, ''Sonar'')]"

definition fpod_codes :: "(byte \<times> string) list" where
  "fpod_codes = [(0, ''NBHF''), (1, ''OtherCet''), (2, ''Unclassed''), (3, ''Sonar'')]"

text \<open>\<^verbatim>\<open>operator[]\<close> of \<^verbatim>\<open>std::unordered_map\<close>: the stored string, the empty string for a new key.\<close>

definition lookup_code :: "(byte \<times> string) list \<Rightarrow> byte \<Rightarrow> string" where
  "lookup_code m code = (case map_of m code of Some s \<Rightarrow> s | None \<Rightarrow> '''')"

definition getSpeciesFromCode :: "byte \<Rightarrow> string \<Rightarrow> string" where
  "getSpeciesFromCode code ext =
     (if ext = ''CP3'' \<and> code \<le> 7 then lookup_code cpod_codes code
      else if ext = ''FP3'' \<and> code \<le> 3 then lookup_code fpod_codes code
      else '''')"

section \<open>The decoded dataset\<close>

text \<open>
  Two values of the source are computed in double precision: the microsecond offset
  \<^verbatim>\<open>static_cast<int>(c / 200.0 * 1000.0)\<close> and the CPOD duration, a quotient of two
  bytes. Floating-point rounding is outside the model: a double is kept as the
  expression that computes it (\<open>dbl\<close>), and the conversion of a double to \<^verbatim>\<open>int\<close> is
  a parameter \<open>d2i\<close> of the decoders. No property below depends on it.
\<close>

datatype dbl = DInt int | DDiv dbl dbl | DMul dbl dbl

record WavDataChunk =
  IPI :: "byte list"
  SPL :: "byte list"

record WavData =
  click :: int
  chunks :: "WavDataChunk list"

text \<open>
  \<^verbatim>\<open>class FPODData\<close>. The Rcpp vectors are lists (\<^verbatim>\<open>IntegerVector\<close> of \<open>int\<close>,
  \<^verbatim>\<open>NumericVector\<close> of \<open>dbl\<close>, \<^verbatim>\<open>LogicalVector\<close> of \<open>bool\<close>, \<^verbatim>\<open>CharacterVector\<close> of
  \<open>string\<close>); the member \<^verbatim>\<open>min\<close> is \<open>min_col\<close>. Of the header list only the
  integer entries are kept, as a list of names and values. The counters are \<open>int\<close>:
  they are bounded by the number of blocks of the file.
\<close>

record FPODData =
  min_col :: "int list"
  microsec :: "int list"
  click_no :: "int list"
  ncyc :: "int list"
  pkat :: "int list"
  clk_ipi_range :: "int list"
  ipi_pre_max :: "int list"
  ipi_at_max :: "int list"
  khz :: "int list"
  amp_at_max :: "int list"
  amp_reversals :: "int list"
  duration :: "dbl list"
  has_wav :: "bool list"
  train_id :: "int list"
  species :: "string list"
  quality_level :: "int list"
  echo :: "bool list"
  wav_data :: "WavData list"
  temp_deg_c :: "int list"
  pod_angle :: "int list"
  bat1 :: "int list"
  bat2 :: "int list"
  header :: "(string \<times> int) list"
  pic_code :: int
  fgpa_code :: int
  last_click :: int

text \<open>
  The constructor \<^verbatim>\<open>FPODData(max_clicks, m_header)\<close>: every column has \<open>max_clicks\<close>
  entries (\<open>FPODData_init\<close>); \<^verbatim>\<open>Rcpp::seq(1, max_clicks)\<close> throws for \<open>max_clicks = 0\<close>.
\<close>

definition FPODData_init :: "nat \<Rightarrow> (string \<times> int) list \<Rightarrow> FPODData" where
  "FPODData_init max_clicks m_header =
     \<lparr> min_col = replicate max_clicks 0,
       microsec = replicate max_clicks 0,
       click_no = map int [1..<Suc max_clicks],
       ncyc = replicate max_clicks 0,
       pkat = replicate max_clicks 0,
       clk_ipi_range = replicate max_clicks 0,
       ipi_pre_max = replicate max_clicks 0,
       ipi_at_max = replicate max_clicks 0,
       khz = replicate max_clicks 0,
       amp_at_max = replicate max_clicks 0,
       amp_reversals = replicate max_clicks 0,
       duration = replicate max_clicks (DInt 0),
       has_wav = replicate max_clicks False,
       train_id = replicate max_clicks 0,
       species = replicate max_clicks '''',
       quality_level = replicate max_clicks 0,
       echo = replicate max_clicks False,
       wav_data = [],
       temp_deg_c = [], pod_angle = [], bat1 = [], bat2 = [],
       header = m_header,
       pic_code = 0, fgpa_code = 0, last_click = 0 \<rparr>"

definition FPODData_new :: "nat \<Rightarrow> (string \<times> int) list \<Rightarrow> error + FPODData" where
  "FPODData_new max_clicks m_header =
     (if max_clicks < 1 then Inl BadRange else Inr (FPODData_init max_clicks m_header))"

text \<open>The invariant the constructor sets up: every click column has \<open>k\<close> entries.\<close>

definition columns_sized :: "nat \<Rightarrow> FPODData \<Rightarrow> bool" where
  "columns_sized k dat =
     (length (min_col dat) = k \<and> length (microsec dat) = k \<and> length (click_no dat) = k
      \<and> length (ncyc dat) = k \<and> length (pkat dat) = k \<and> length (clk_ipi_range dat) = k
      \<and> length (ipi_pre_max dat) = k \<and> length (ipi_at_max dat) = k \<and> length (khz dat) = k
      \<and> length (amp_at_max dat) = k \<and> length (amp_reversals dat) = k
      \<and> length (duration dat) = k \<and> length (has_wav dat) = k \<and> length (train_id dat) = k
      \<and> length (species dat) = k \<and> length (quality_level dat) = k \<and> length (echo dat) = k)"

text \<open>Indexing a column with an \<^verbatim>\<open>int\<close>: inside the bounds, the write, the read.\<close>

definition inb :: "'a list \<Rightarrow> int \<Rightarrow> bool" where
  "inb xs i = (0 \<le> i \<and> i < int (length xs))"

definition put :: "'a list \<Rightarrow> int \<Rightarrow> 'a \<Rightarrow> 'a list" where
  "put xs i v = xs[nat i := v]"

definition at :: "'a list \<Rightarrow> int \<Rightarrow> 'a" where
  "at xs i = xs ! nat i"

text \<open>\<^verbatim>\<open>dat.header["pic_ver"]\<close>: the entry of that name, a failure when there is none.\<close>

definition header_int :: "(string \<times> int) list \<Rightarrow> string \<Rightarrow> error + int" where
  "header_int h name = (case map_of h name of None \<Rightarrow> Inl NoSuchName | Some v \<Rightarrow> Inr v)"

text \<open>
  \<^verbatim>\<open>toList\<close>: the click table keeps the rows \<^verbatim>\<open>seq(0, last_click)\<close> when
  \<^verbatim>\<open>last_click > -1\<close> and no row otherwise; \<open>subset\<close> is the Rcpp subsetting
  \<^verbatim>\<open>column[filter]\<close>, which checks the indices.
\<close>

definition toList_filter :: "FPODData \<Rightarrow> nat list" where
  "toList_filter dat =
     (if last_click dat > -1 then [0..<nat (last_click dat + 1)] else [])"

definition subset :: "'a list \<Rightarrow> nat list \<Rightarrow> error + 'a list" where
  "subset xs idx =
     (if list_all (\<lambda>i. i < length xs) idx then Inr (map (\<lambda>i. xs ! i) idx) else Inl OutOfBounds)"

section \<open>Flattening the waveform data\<close>

text \<open>A loop over a list whose body may fail: the first failure ends it.\<close>

primrec for_each :: "('a \<Rightarrow> 's \<Rightarrow> error + 's) \<Rightarrow> 'a list \<Rightarrow> 's \<Rightarrow> error + 's" where
  "for_each f [] s = Inr s"
| "for_each f (x # xs) s = (case f x s of Inl e \<Rightarrow> Inl e | Inr s' \<Rightarrow> for_each f xs s')"

text \<open>
  \<^verbatim>\<open>wavToList\<close>. The state of its loops is the three pre-sized columns, \<^verbatim>\<open>pos\<close> and
  \<^verbatim>\<open>total_records\<close>. \<open>wav_row\<close> is the body of the innermost loop: one row written
  at \<^verbatim>\<open>pos\<close>, from entry \<open>j\<close> of the chunk.
\<close>

type_synonym wav_state = "int list \<times> int list \<times> int list \<times> nat \<times> nat"

definition wav_row :: "WavData \<Rightarrow> WavDataChunk \<Rightarrow> nat \<Rightarrow> wav_state \<Rightarrow> error + wav_state" where
  "wav_row wav it j =
     (\<lambda>(click_num, ipi, spl, pos, total_records).
        if pos < length click_num \<and> pos < length ipi \<and> pos < length spl
           \<and> j < length (IPI it) \<and> j < length (SPL it)
        then Inr (click_num[pos := click wav],
                  ipi[pos := uint (IPI it ! j)],
                  spl[pos := uint (SPL it ! j)],
                  pos + 1, total_records + 1)
        else Inl OutOfBounds)"

definition wavToList :: "WavData list \<Rightarrow> error + (int list \<times> int list \<times> int list)" where
  "wavToList wavs =
     (let estimated_num_records = length wavs * 21;
          start = (replicate estimated_num_records 0, replicate estimated_num_records 0,
                   replicate estimated_num_records 0, 0, 0)
      in case for_each
                (\<lambda>wav. for_each (\<lambda>it. for_each (wav_row wav it) [0..<7]) (rev (chunks wav)))
                wavs start of
           Inl e \<Rightarrow> Inl e
         | Inr (click_num, ipi, spl, pos, total_records) \<Rightarrow>
             (let filter = (if total_records > 0 then [0..<total_records] else [])
              in case (subset click_num filter, subset ipi filter, subset spl filter) of
                   (Inr a, Inr b, Inr c) \<Rightarrow> Inr (a, b, c)
                 | _ \<Rightarrow> Inl OutOfBounds))"

text \<open>\<^verbatim>\<open>toList\<close> puts \<^verbatim>\<open>wavToList(wav_data)\<close> into its result as the waveform table.\<close>

definition toList_wav :: "FPODData \<Rightarrow> error + (int list \<times> int list \<times> int list)" where
  "toList_wav dat = wavToList (wav_data dat)"

text \<open>
  What the specification asks of the flattening: the series in order, the chunks of a
  series last-appended first, the seven pairs of a chunk in their own order.
\<close>

definition chunk_rows :: "int \<Rightarrow> WavDataChunk \<Rightarrow> (int \<times> int \<times> int) list" where
  "chunk_rows k c = map (\<lambda>j. (k, uint (IPI c ! j), uint (SPL c ! j))) [0..<7]"

definition click_rows :: "WavData \<Rightarrow> (int \<times> int \<times> int) list" where
  "click_rows w = concat (map (chunk_rows (click w)) (rev (chunks w)))"

definition wav_capacity_ok :: "WavData list \<Rightarrow> bool" where
  "wav_capacity_ok wavs =
     (list_all (\<lambda>w. list_all (\<lambda>c. 7 \<le> length (IPI c) \<and> 7 \<le> length (SPL c)) (chunks w)) wavs
      \<and> 7 * sum_list (map (\<lambda>w. length (chunks w)) wavs) \<le> 21 * length wavs)"

section \<open>The FPOD decoder\<close>

text \<open>The waveform loop \<^verbatim>\<open>for (int pos = 12; pos >= 0; pos -= 2)\<close>.\<close>

function wav_chunk_loop :: "byte list \<Rightarrow> int \<Rightarrow> WavDataChunk \<Rightarrow> WavDataChunk" where
  "wav_chunk_loop buf pos c =
     (if pos \<ge> 0
      then wav_chunk_loop buf (pos - 2)
             (c\<lparr> IPI := IPI c @ [buf ! nat (pos + 1)], SPL := SPL c @ [buf ! nat (pos + 2)] \<rparr>)
      else c)"
  by pat_completeness auto
termination
  by (relation "measure (\<lambda>(buf, pos, c). nat (pos + 1))") auto

declare wav_chunk_loop.simps [simp del]

text \<open>
  The body of the loop of \<^verbatim>\<open>getFPODData\<close>, one definition for each branch on the
  first byte of the block. Each branch first checks that the bytes it reads and the
  entries it writes exist.

  A click block: the row written at index \<open>i\<close>, the incremented \<^verbatim>\<open>current_click\<close>.
\<close>

definition getFPODData_click ::
  "(dbl \<Rightarrow> int) \<Rightarrow> byte list \<Rightarrow> int \<Rightarrow> int \<Rightarrow> FPODData \<Rightarrow> error + FPODData" where
  "getFPODData_click d2i buf i current_min dat =
     (if length buf < 15
         \<or> \<not> (inb (min_col dat) i \<and> inb (microsec dat) i \<and> inb (ncyc dat) i
              \<and> inb (pkat dat) i \<and> inb (clk_ipi_range dat) i \<and> inb (ipi_pre_max dat) i
              \<and> inb (ipi_at_max dat) i \<and> inb (amp_at_max dat) i
              \<and> inb (amp_reversals dat) i \<and> inb (duration dat) i)
      then Inl OutOfBounds
      else Inr
        (dat\<lparr> min_col := put (min_col dat) i current_min,
              microsec := put (microsec dat) i
                (d2i (DMul (DDiv (DInt (uint (constructInt buf 0 3 :: 32 word))) (DInt 200))
                           (DInt 1000))),
              ncyc := put (ncyc dat) i (uint (buf ! 3)),
              pkat := put (pkat dat) i (drop_bit 4 (uint (buf ! 4) AND 0xF0)),
              clk_ipi_range := put (clk_ipi_range dat) i
                (if uint (buf ! 4) AND 0xF = 15 then 65
                 else if uint (buf ! 4) AND 0x8 = 8
                      then push_bit 3 ((uint (buf ! 4) AND 0x7) + 1)
                      else uint (buf ! 4) AND 0x7),
              ipi_pre_max := put (ipi_pre_max dat) i (uint (buf ! 5) + 1),
              ipi_at_max := put (ipi_at_max dat) i (uint (buf ! 6) + 1),
              amp_at_max := put (amp_at_max dat) i (uint (max 2 (buf ! 10))),
              amp_reversals := put (amp_reversals dat) i (uint (buf ! 13) AND 15),
              duration := put (duration dat) i
                (DInt (((uint (buf ! 13) AND 240) * 16 + uint (buf ! 14)) div 5)) \<rparr>))"

text \<open>A train block (first byte 249): the annotation written at index \<open>i\<close>.\<close>

definition getFPODData_train :: "string \<Rightarrow> byte list \<Rightarrow> int \<Rightarrow> FPODData \<Rightarrow> error + FPODData" where
  "getFPODData_train ext buf i dat =
     (if length buf < 16
         \<or> \<not> (inb (train_id dat) i \<and> inb (species dat) i
              \<and> inb (quality_level dat) i \<and> inb (echo dat) i)
      then Inl OutOfBounds
      else Inr
        (dat\<lparr> train_id := put (train_id dat) i (uint (buf ! 15)),
              species := put (species dat) i
                (getSpeciesFromCode (word_of_int (drop_bit 2 (uint (buf ! 14)) AND 3)) ext),
              quality_level := put (quality_level dat) i (uint (buf ! 14) AND 3),
              echo := put (echo dat) i (uint (buf ! 14) AND 32 = 32) \<rparr>))"

text \<open>
  A waveform block (first byte 250): the series opened when \<^verbatim>\<open>has_wav\<close> is not yet
  set at index \<open>current_click + 1\<close>, then the chunk appended to the last series.
\<close>

definition getFPODData_wav :: "byte list \<Rightarrow> int \<Rightarrow> FPODData \<Rightarrow> error + FPODData" where
  "getFPODData_wav buf current_click dat =
     (if \<not> inb (has_wav dat) (current_click + 1) then Inl OutOfBounds
      else
        let dat1 = (if at (has_wav dat) (current_click + 1) \<noteq> True
                    then dat\<lparr> has_wav := put (has_wav dat) (current_click + 1) True,
                              wav_data := wav_data dat
                                @ [\<lparr> click = current_click + 2, chunks = [] \<rparr>] \<rparr>
                    else dat)
        in if wav_data dat1 = [] then Inl EmptyBack
           else if length buf < 15 then Inl OutOfBounds
           else Inr
             (dat1\<lparr> wav_data := butlast (wav_data dat1)
                @ [(last (wav_data dat1))
                     \<lparr> chunks := chunks (last (wav_data dat1))
                         @ [wav_chunk_loop buf 12 \<lparr> IPI = [], SPL = [] \<rparr>] \<rparr>] \<rparr>))"

text \<open>A minute block (first byte 254): the environmental sample appended.\<close>

definition getFPODData_minute :: "int \<Rightarrow> byte list \<Rightarrow> FPODData \<Rightarrow> error + FPODData" where
  "getFPODData_minute pic_ver buf dat =
     (if length buf < 13 \<or> (pic_ver < 28 \<and> buf ! 11 = 0 \<and> length buf < 14)
      then Inl OutOfBounds
      else if pic_ver < 28 \<and> buf ! 11 = 0 \<and> buf ! 13 \<noteq> 0
      then Inr (dat\<lparr> temp_deg_c := temp_deg_c dat @ [uint (buf ! 7)],
                     bat1 := bat1 dat @ [uint (buf ! 12)],
                     bat2 := bat2 dat @ [uint (buf ! 13)] \<rparr>)
      else Inr (dat\<lparr> temp_deg_c := temp_deg_c dat @ [uint (buf ! 7)],
                     bat1 := bat1 dat @ [uint (buf ! 11)],
                     bat2 := bat2 dat @ [uint (buf ! 12)] \<rparr>))"

text \<open>
  The dispatch for one block that was read in full. It returns the new
  \<^verbatim>\<open>current_click\<close>, \<^verbatim>\<open>current_min\<close> and dataset.
\<close>

definition getFPODData_block ::
  "(dbl \<Rightarrow> int) \<Rightarrow> string \<Rightarrow> int \<Rightarrow> byte list \<Rightarrow> int \<Rightarrow> int \<Rightarrow> FPODData
     \<Rightarrow> error + (int \<times> int \<times> FPODData)" where
  "getFPODData_block d2i ext pic_ver buf current_click current_min dat =
     (if length buf < 1 then Inl OutOfBounds
      else if buf ! 0 < 184 then
        (case getFPODData_click d2i buf (current_click + 1) current_min dat of
           Inl e \<Rightarrow> Inl e
         | Inr dat' \<Rightarrow> Inr (current_click + 1, current_min, dat'))
      else if buf ! 0 = 249 then
        (case getFPODData_train ext buf (current_click + 1) dat of
           Inl e \<Rightarrow> Inl e
         | Inr dat' \<Rightarrow> Inr (current_click, current_min, dat'))
      else if buf ! 0 = 250 then
        (case getFPODData_wav buf current_click dat of
           Inl e \<Rightarrow> Inl e
         | Inr dat' \<Rightarrow> Inr (current_click, current_min, dat'))
      else if buf ! 0 = 254 then
        (case getFPODData_minute pic_ver buf dat of
           Inl e \<Rightarrow> Inl e
         | Inr dat' \<Rightarrow> Inr (current_click, current_min + 1, dat'))
      else Inr (current_click, current_min, dat))"

text \<open>
  The loop \<^verbatim>\<open>while (1)\<close> of \<^verbatim>\<open>getFPODData\<close> over the unread rest \<open>inp\<close> of the
  stream. \<^verbatim>\<open>fid.read\<close> of \<open>n\<close> bytes fails when fewer than \<open>n\<close> are left, having
  consumed them, and the loop ends; otherwise the block is the next \<open>n\<close> bytes (after
  a read that succeeded \<^verbatim>\<open>gcount\<close> is \<open>n\<close>, so the second test of the source never
  fires). With
  \<open>n = 0\<close> the read succeeds and \<^verbatim>\<open>buf[0]\<close> is outside the empty buffer. The loop
  returns \<^verbatim>\<open>current_click\<close>, \<^verbatim>\<open>current_min\<close>, the dataset and the unread rest.
\<close>

function getFPODData_loop ::
  "(dbl \<Rightarrow> int) \<Rightarrow> string \<Rightarrow> int \<Rightarrow> nat \<Rightarrow> int \<Rightarrow> int \<Rightarrow> FPODData \<Rightarrow> byte list
     \<Rightarrow> error + (int \<times> int \<times> FPODData \<times> byte list)" where
  "getFPODData_loop d2i ext pic_ver n current_click current_min dat inp =
     (if n = 0 then Inl OutOfBounds
      else if length inp < n then Inr (current_click, current_min, dat, [])
      else case getFPODData_block d2i ext pic_ver (take n inp) current_click current_min dat of
             Inl e \<Rightarrow> Inl e
           | Inr (cc, cm, dat') \<Rightarrow> getFPODData_loop d2i ext pic_ver n cc cm dat' (drop n inp))"
  by pat_completeness auto
termination
  by (relation "measure (\<lambda>(d2i, ext, pic_ver, n, cc, cm, dat, inp). length inp)") auto

declare getFPODData_loop.simps [simp del]

text \<open>
  \<^verbatim>\<open>getFPODData\<close>: the dataset with \<^verbatim>\<open>last_click\<close> set, the returned
  \<^verbatim>\<open>current_click\<close> and the unread rest of the stream.
\<close>

definition getFPODData ::
  "(dbl \<Rightarrow> int) \<Rightarrow> string \<Rightarrow> nat \<Rightarrow> FPODData \<Rightarrow> byte list
     \<Rightarrow> error + (FPODData \<times> int \<times> byte list)" where
  "getFPODData d2i ext data_buf_size dat inp =
     (case header_int (header dat) ''pic_ver'' of
        Inl e \<Rightarrow> Inl e
      | Inr pic_ver \<Rightarrow>
          (case getFPODData_loop d2i ext pic_ver data_buf_size (-1) (-1) dat inp of
             Inl e \<Rightarrow> Inl e
           | Inr (current_click, current_min, dat', rest) \<Rightarrow>
               Inr (dat'\<lparr> last_click := current_click \<rparr>, current_click, rest)))"

section \<open>The CPOD decoder\<close>

text \<open>The click branch of \<^verbatim>\<open>getCPODData\<close>: the row written at index \<open>i\<close>.\<close>

definition getCPODData_click ::
  "(dbl \<Rightarrow> int) \<Rightarrow> string \<Rightarrow> byte list \<Rightarrow> int \<Rightarrow> int \<Rightarrow> FPODData \<Rightarrow> error + FPODData" where
  "getCPODData_click d2i ext buf i current_min dat =
     (if length buf < 6
         \<or> \<not> (inb (min_col dat) i \<and> inb (microsec dat) i \<and> inb (ncyc dat) i
              \<and> inb (khz dat) i \<and> inb (amp_at_max dat) i)
         \<or> (buf ! 5 > 0 \<and> \<not> inb (duration dat) i)
         \<or> (ext = ''CP3''
             \<and> (length buf < 40
                 \<or> \<not> (inb (train_id dat) i \<and> inb (species dat) i \<and> inb (quality_level dat) i)))
      then Inl OutOfBounds
      else
        let d1 = dat\<lparr> min_col := put (min_col dat) i current_min,
                      microsec := put (microsec dat) i
                        (d2i (DMul (DDiv (DInt (uint (constructInt buf 0 3 :: 32 word)))
                                         (DInt 200)) (DInt 1000))),
                      ncyc := put (ncyc dat) i (uint (buf ! 3)),
                      khz := put (khz dat) i (uint (buf ! 5)),
                      amp_at_max := put (amp_at_max dat) i (uint (buf ! 5)) \<rparr>;
            d2 = (if buf ! 5 > 0
                  then d1\<lparr> duration := put (duration d1) i
                             (DDiv (DInt (uint (buf ! 3))) (DInt (uint (buf ! 5)))) \<rparr>
                  else d1);
            d3 = (if ext = ''CP3''
                  then d2\<lparr> train_id := put (train_id d2) i (uint (buf ! 39)),
                            species := put (species d2) i
                              (getSpeciesFromCode (word_of_int (drop_bit 3 (uint (buf ! 36)))) ext),
                            quality_level := put (quality_level d2) i (uint (buf ! 36) AND 3) \<rparr>
                  else d2)
        in Inr d3)"

text \<open>
  The loop of \<^verbatim>\<open>getCPODData\<close>, with the counter \<^verbatim>\<open>file_ends\<close> of consecutive
  terminator blocks. \<^verbatim>\<open>last_byte\<close> is \<open>n - 1\<close>; for \<open>n = 0\<close> it wraps around and
  \<^verbatim>\<open>buf[last_byte]\<close> is outside the buffer.
\<close>

function getCPODData_loop ::
  "(dbl \<Rightarrow> int) \<Rightarrow> string \<Rightarrow> nat \<Rightarrow> int \<Rightarrow> int \<Rightarrow> int \<Rightarrow> FPODData \<Rightarrow> byte list
     \<Rightarrow> error + (int \<times> int \<times> int \<times> FPODData \<times> byte list)" where
  "getCPODData_loop d2i ext n current_click current_min file_ends dat inp =
     (if n = 0 then Inl OutOfBounds
      else if length inp < n then Inr (current_click, current_min, file_ends, dat, [])
      else
        let buf = take n inp; last_byte = n - 1 in
        if eof buf \<and> file_ends + 1 = 2
        then Inr (current_click, current_min, file_ends + 1, dat, drop n inp)
        else
          let file_ends' = (if eof buf then file_ends + 1 else 0) in
          if buf ! last_byte \<noteq> 254
          then (case getCPODData_click d2i ext buf (current_click + 1) current_min dat of
                  Inl e \<Rightarrow> Inl e
                | Inr dat' \<Rightarrow>
                    getCPODData_loop d2i ext n (current_click + 1) current_min file_ends' dat'
                      (drop n inp))
          else getCPODData_loop d2i ext n current_click (current_min + 1) file_ends' dat
                 (drop n inp))"
  by pat_completeness auto
termination
  by (relation "measure (\<lambda>(d2i, ext, n, cc, cm, fe, dat, inp). length inp)") auto

declare getCPODData_loop.simps [simp del]

text \<open>
  \<^verbatim>\<open>getCPODData\<close>: \<^verbatim>\<open>last_click\<close> and the returned value are
  \<^verbatim>\<open>current_click - 1\<close>.
\<close>

definition getCPODData ::
  "(dbl \<Rightarrow> int) \<Rightarrow> string \<Rightarrow> nat \<Rightarrow> FPODData \<Rightarrow> byte list
     \<Rightarrow> error + (FPODData \<times> int \<times> byte list)" where
  "getCPODData d2i ext data_buf_size dat inp =
     (case getCPODData_loop d2i ext data_buf_size (-1) (-1) 0 dat inp of
        Inl e \<Rightarrow> Inl e
      | Inr (current_click, current_min, file_ends, dat', rest) \<Rightarrow>
          Inr (dat'\<lparr> last_click := current_click - 1 \<rparr>, current_click - 1, rest))"

section \<open>The specification's wording\<close>

text \<open>
  The definitions of this section are not translated from the source: they state what
  the specification says, to be compared with the decoder.

  The IPI-range class as a function of the low nibble of byte 4.
\<close>

definition low_nibble :: "byte \<Rightarrow> int" where
  "low_nibble b = uint b mod 16"

definition ipi_range_class :: "int \<Rightarrow> int" where
  "ipi_range_class nibble =
     (if nibble = 15 then 65
      else if bit nibble 3 then push_bit 3 ((nibble AND 7) + 1)
      else nibble AND 7)"

text \<open>
  A bit field of a byte, as the specification names it (``bits 2--3 of byte 14''): the
  value of the \<open>n\<close> bits from bit \<open>lo\<close> upwards.
\<close>

definition bit_field :: "byte \<Rightarrow> nat \<Rightarrow> nat \<Rightarrow> int" where
  "bit_field b lo n = (uint b div 2 ^ lo) mod 2 ^ n"

text \<open>
  The waveform pairs at the offsets the specification names: (13,12), (11,10), down to
  (1,0).
\<close>

definition claimed_wav_chunk :: "byte list \<Rightarrow> WavDataChunk" where
  "claimed_wav_chunk buf =
     \<lparr> IPI = [buf ! 13, buf ! 11, buf ! 9, buf ! 7, buf ! 5, buf ! 3, buf ! 1],
       SPL = [buf ! 12, buf ! 10, buf ! 8, buf ! 6, buf ! 4, buf ! 2, buf ! 0] \<rparr>"

section \<open>The writes of the flattening\<close>

text \<open>
  The writes of \<^verbatim>\<open>wavToList\<close> in the order of its three nested loops, and the row a
  write stores.
\<close>

definition wav_writes :: "WavData list \<Rightarrow> (WavData \<times> WavDataChunk \<times> nat) list" where
  "wav_writes wavs =
     concat (map (\<lambda>wav. concat (map (\<lambda>it. map (\<lambda>j. (wav, it, j)) [0..<7])
                                      (rev (chunks wav)))) wavs)"

definition write_row :: "WavData \<times> WavDataChunk \<times> nat \<Rightarrow> int \<times> int \<times> int" where
  "write_row w = (case w of (wav, it, j) \<Rightarrow> (click wav, uint (IPI it ! j), uint (SPL it ! j)))"

definition write_ok :: "WavData \<times> WavDataChunk \<times> nat \<Rightarrow> bool" where
  "write_ok w = (case w of (wav, it, j) \<Rightarrow> j < length (IPI it) \<and> j < length (SPL it))"

section \<open>The bookkeeping of waveform series\<close>

text \<open>
  The relation between \<^verbatim>\<open>has_wav\<close>, \<^verbatim>\<open>wav_data\<close> and \<^verbatim>\<open>current_click\<close> that the FPOD
  decoder maintains: when the flag of the next click is set, the last series is the
  one of that click; no flag is set beyond the next click.
\<close>

definition wav_inv :: "int \<Rightarrow> FPODData \<Rightarrow> bool" where
  "wav_inv cc dat =
     ((inb (has_wav dat) (cc + 1) \<and> at (has_wav dat) (cc + 1) \<longrightarrow>
         wav_data dat \<noteq> [] \<and> click (last (wav_data dat)) = cc + 2)
      \<and> (\<forall>j. cc + 1 < j \<and> inb (has_wav dat) j \<longrightarrow> \<not> at (has_wav dat) j))"

section \<open>Example inputs\<close>

text \<open>
  Concrete blocks and a concrete conversion of doubles, for the examples below. The
  conversion evaluates the one expression the decoders convert, \<open>c / 200 * 1000\<close>, in
  exact arithmetic; the source computes it in double precision and may differ from it
  by one for some counters. It only stands in for the parameter \<open>d2i\<close>: no example
  states a microsecond value.
\<close>

definition d2i_example :: "dbl \<Rightarrow> int" where
  "d2i_example d =
     (case d of DMul (DDiv (DInt c) (DInt k)) (DInt m) \<Rightarrow> c * m div k | _ \<Rightarrow> 0)"

definition example_click_block :: "byte list" where
  "example_click_block = [10, 0, 1, 7, 0x2A, 3, 4, 0, 0, 0, 5, 0, 0, 0x12, 20, 0]"

definition example_minute_block :: "byte list" where
  "example_minute_block = [254, 0, 0, 0, 0, 0, 0, 21, 0, 0, 0, 0, 90, 88, 0, 0]"

definition example_train_block :: "byte list" where
  "example_train_block = [249, 0, 0, 0, 0, 0, 0, 0, 0, 0, 0, 0, 0, 0, 0x27, 9]"

definition example_wav_block :: "byte list" where
  "example_wav_block = [250, 1, 2, 3, 4, 5, 6, 7, 8, 9, 10, 11, 12, 13, 14, 15]"

text \<open>A dataset in which the series of click number 1 is open and holds one chunk.\<close>

definition example_wav_dat :: FPODData where
  "example_wav_dat =
     (FPODData_init 1 [])
       \<lparr> has_wav := [True],
         wav_data := [\<lparr> click = 1, chunks =
           [\<lparr> IPI = [1, 2, 3, 4, 5, 6, 7], SPL = [7, 6, 5, 4, 3, 2, 1] \<rparr>] \<rparr>] \<rparr>"

text \<open>A CP1 click block and a CP1 terminator block (10 bytes).\<close>

definition example_cp1_click :: "byte list" where
  "example_cp1_click = [1, 2, 3, 4, 0, 6, 0, 0, 0, 9]"


text \<open>Three waveform chunks with distinguishable samples, appended in the order A, B, C.\<close>

definition example_chunk_A :: WavDataChunk where
  "example_chunk_A = \<lparr> IPI = [11, 12, 13, 14, 15, 16, 17], SPL = [111, 112, 113, 114, 115, 116, 117] \<rparr>"

definition example_chunk_B :: WavDataChunk where
  "example_chunk_B = \<lparr> IPI = [21, 22, 23, 24, 25, 26, 27], SPL = [121, 122, 123, 124, 125, 126, 127] \<rparr>"

definition example_chunk_C :: WavDataChunk where
  "example_chunk_C = \<lparr> IPI = [31, 32, 33, 34, 35, 36, 37], SPL = [131, 132, 133, 134, 135, 136, 137] \<rparr>"

section \<open>Big-endian construction\<close>

lemma fold_construct_shift:
  "fold (\<lambda>i res. push_bit 8 res OR ucast (buf ! (offset + i))) [0..<n] (0 :: 'a::len word)
     = fold (\<lambda>b res. push_bit 8 res OR ucast b) (take n (drop offset buf)) 0"
  if "offset + n \<le> length buf"
proof -
  have "map (\<lambda>i. buf ! (offset + i)) [0..<n] = take n (drop offset buf)"
    using that by (intro nth_equalityI) auto
  moreover have "fold (\<lambda>i res. push_bit 8 res OR ucast (buf ! (offset + i))) is (a :: 'a word)
      = fold (\<lambda>b res. push_bit 8 res OR ucast b) (map (\<lambda>i. buf ! (offset + i)) is) a" for "is" a
    by (simp add: fold_map comp_def)
  ultimately show ?thesis by simp
qed

lemma constructInt_inside:
  "offset + n < length buf \<Longrightarrow>
     (constructInt buf offset n :: 'a::len word)
       = fold (\<lambda>b res. push_bit 8 res OR ucast b) (take n (drop offset buf)) 0"
  by (simp add: constructInt_def fold_construct_shift)

text \<open>
  Inside the guard \<^verbatim>\<open>constructInt\<close> computes the big-endian value of the field, as long
  as the field fits the result type; at or past the end of the buffer it gives 0, for
  offsets and sizes whose sum the source's \<^verbatim>\<open>size_t\<close> addition does not wrap around.
\<close>

lemma bit_below_256: "bit y n \<Longrightarrow> n < 8" if "y < 256" for y :: nat
proof -
  have e: "take_bit 8 y = y" using that by (simp add: take_bit_nat_eq_self)
  have "bit (take_bit 8 y) n = (n < 8 \<and> bit y n)" by (rule bit_take_bit_iff)
  then have "bit y n = (n < 8 \<and> bit y n)" unfolding e .
  then show "bit y n \<Longrightarrow> n < 8" by blast
qed

lemma shift_or_nat: "push_bit 8 x OR y = x * 256 + y" if "y < 256" for x y :: nat
proof -
  have "\<not> bit (push_bit 8 x AND y) n" for n
  proof
    assume "bit (push_bit 8 x AND y) n"
    then have "bit (push_bit 8 x) n" and "bit y n" by (simp_all add: bit_and_iff)
    then have "8 \<le> n" and "n < 8"
      using bit_below_256 [OF that] by (simp_all add: bit_push_bit_iff)
    then show False by simp
  qed
  then have "push_bit 8 x AND y = 0" by (simp add: bit_eq_iff)
  then have "push_bit 8 x + y = push_bit 8 x OR y" by (rule disjunctive_add_eq_or)
  then show ?thesis by (simp add: push_bit_eq_mult)
qed

lemma shift_or_word:
  fixes w :: "'a::len word" and b :: byte
  assumes "unat w < 256 ^ m" and "8 * (m + 1) \<le> LENGTH('a)"
  shows "unat (push_bit 8 w OR ucast b) = unat w * 256 + unat b"
    and "unat w * 256 + unat b < 256 ^ (m + 1)"
proof -
  have b: "unat b < 256" using unsigned_less [of b] by simp
  show lt: "unat w * 256 + unat b < 256 ^ (m + 1)"
  proof -
    have "unat w + 1 \<le> 256 ^ m" using assms(1) by simp
    then have "(unat w + 1) * 256 \<le> 256 ^ m * 256" by (rule mult_le_mono1)
    moreover have "unat w * 256 + unat b < (unat w + 1) * 256" using b by simp
    ultimately have "unat w * 256 + unat b < 256 ^ m * 256" by (rule less_le_trans [rotated])
    then show ?thesis by simp
  qed
  have "(256 :: nat) ^ (m + 1) = (2 ^ 8) ^ (m + 1)" by simp
  also have "\<dots> = 2 ^ (8 * (m + 1))" by (rule power_mult [symmetric])
  also have "\<dots> \<le> 2 ^ LENGTH('a)" using assms(2) by (rule power_increasing) simp
  finally have le: "(256 :: nat) ^ (m + 1) \<le> 2 ^ LENGTH('a)" .
  have "push_bit 8 (unat w) = unat w * 256" by (simp add: push_bit_eq_mult)
  also have "\<dots> \<le> unat w * 256 + unat b" by simp
  also have "\<dots> < 2 ^ LENGTH('a)" using lt le by (rule less_le_trans)
  finally have s: "push_bit 8 (unat w) < 2 ^ LENGTH('a)" .
  have "unat b \<le> unat w * 256 + unat b" by simp
  also have "\<dots> < 2 ^ LENGTH('a)" using lt le by (rule less_le_trans)
  finally have u: "unat b < 2 ^ LENGTH('a)" .
  have p: "unat (push_bit 8 w) = push_bit 8 (unat w)"
    unfolding unsigned_push_bit_eq using s by (rule take_bit_nat_eq_self)
  have c: "unat (ucast b :: 'a word) = unat b"
    unfolding unsigned_ucast_eq using u by (rule take_bit_nat_eq_self)
  have "unat (push_bit 8 w OR ucast b) = unat (push_bit 8 w) OR unat (ucast b :: 'a word)"
    by (rule unsigned_or_eq)
  also have "\<dots> = push_bit 8 (unat w) OR unat b" unfolding p c ..
  also have "\<dots> = unat w * 256 + unat b" by (rule shift_or_nat [OF b])
  finally show "unat (push_bit 8 w OR ucast b) = unat w * 256 + unat b" .
qed

lemma fold_shift_or:
  fixes w :: "'a::len word" and bs :: "byte list"
  assumes "unat w < 256 ^ m" and "8 * (m + length bs) \<le> LENGTH('a)"
  shows "unat (fold (\<lambda>b res. push_bit 8 res OR ucast b) bs w)
           = foldl (\<lambda>acc b. acc * 256 + unat b) (unat w) bs"
  using assms
proof (induction bs arbitrary: w m)
  case Nil
  then show ?case by simp
next
  case (Cons b bs)
  have l: "8 * (m + 1) \<le> LENGTH('a)" using Cons.prems(2) by simp
  note st = shift_or_word [OF Cons.prems(1) l, of b]
  have l': "8 * ((m + 1) + length bs) \<le> LENGTH('a)" using Cons.prems(2) by simp
  have lt: "unat (push_bit 8 w OR ucast b) < 256 ^ (m + 1)" unfolding st(1) by (rule st(2))
  have "unat (fold (\<lambda>b res. push_bit 8 res OR ucast b) (b # bs) w)
      = unat (fold (\<lambda>b res. push_bit 8 res OR ucast b) bs (push_bit 8 w OR ucast b))"
    by simp
  also have "\<dots> = foldl (\<lambda>acc b. acc * 256 + unat b) (unat (push_bit 8 w OR ucast b)) bs"
    by (rule Cons.IH [OF lt l'])
  also have "\<dots> = foldl (\<lambda>acc b. acc * 256 + unat b) (unat w) (b # bs)"
    unfolding st(1) by simp
  finally show ?case .
qed

lemma constructInt_big_endian:
  assumes "offset + n < length buf" and "8 * n \<le> LENGTH('a::len)"
  shows "unat (constructInt buf offset n :: 'a word) = big_endian (take n (drop offset buf))"
proof -
  have l: "length (take n (drop offset buf)) = n" using assms(1) by simp
  have z: "unat (0 :: 'a word) < 256 ^ 0" by simp
  have c: "8 * (0 + length (take n (drop offset buf))) \<le> LENGTH('a)"
    unfolding l using assms(2) by simp
  have "unat (fold (\<lambda>b res. push_bit 8 res OR ucast b) (take n (drop offset buf)) (0 :: 'a word))
      = foldl (\<lambda>acc b. acc * 256 + unat b) (unat (0 :: 'a word)) (take n (drop offset buf))"
    by (rule fold_shift_or [OF z c])
  then show ?thesis
    unfolding constructInt_inside [OF assms(1)] big_endian_def by simp
qed

lemma constructInt_past_end:
  "length buf \<le> offset + n \<Longrightarrow> offset + n < 2 ^ 64 \<Longrightarrow>
     (constructInt buf offset n :: 'a::len word) = 0"
  by (simp add: constructInt_def)

text \<open>
  C6 (code evaluated at the failing input). The specification's example reads the byte
  sequence \<open>[0x01, 0x02]\<close> as a 2-byte field and expects 258. For the buffer holding
  exactly these two bytes the guard \<open>0 + 2 < 2\<close> fails and the source returns 0; with
  one more byte behind the field the same call gives 258.
\<close>

theorem constructInt_two_byte_buffer:
  "(constructInt [0x01, 0x02] 0 2 :: 32 word) = 0
   \<and> big_endian [0x01, 0x02] = 258
   \<and> (constructInt [0x01, 0x02, 0x00] 0 2 :: 32 word) = 258"
  by (simp add: constructInt_def big_endian_def upt_rec)

text \<open>
  C9. A field whose offset plus size equals the buffer length ends at the last byte of
  the buffer and lies fully inside it; the source's guard is strict, so the result is 0
  whatever the bytes are.
\<close>

theorem constructInt_field_at_end:
  "offset + n = length buf \<Longrightarrow> (constructInt buf offset n :: 'a::len word) = 0"
  by (simp add: constructInt_def)

theorem constructInt_field_at_end_witness:
  "1 + 2 = length [0xAB, 0x01, 0x02 :: byte]
   \<and> (constructInt [0xAB, 0x01, 0x02] 1 2 :: 32 word) = 0
   \<and> big_endian (take 2 (drop 1 [0xAB, 0x01, 0x02])) = 258"
  using constructInt_field_at_end [of 1 2 "[0xAB, 0x01, 0x02]", where ?'a = 32]
  by (simp add: big_endian_def)

section \<open>Species lookup\<close>

text \<open>
  C7. The two tables of \<^verbatim>\<open>getSpeciesFromCode\<close>, and the empty label for every code
  above 7 (CP3) or above 3 (FP3).
\<close>

theorem getSpeciesFromCode_table:
  "getSpeciesFromCode 0 ''CP3'' = ''NBHF'' \<and> getSpeciesFromCode 1 ''CP3'' = ''NBHF''
   \<and> getSpeciesFromCode 2 ''CP3'' = ''OtherCet'' \<and> getSpeciesFromCode 3 ''CP3'' = ''OtherCet''
   \<and> getSpeciesFromCode 4 ''CP3'' = ''Unclassed'' \<and> getSpeciesFromCode 5 ''CP3'' = ''Unclassed''
   \<and> getSpeciesFromCode 6 ''CP3'' = ''Sonar'' \<and> getSpeciesFromCode 7 ''CP3'' = ''Sonar''
   \<and> getSpeciesFromCode 0 ''FP3'' = ''NBHF'' \<and> getSpeciesFromCode 1 ''FP3'' = ''OtherCet''
   \<and> getSpeciesFromCode 2 ''FP3'' = ''Unclassed'' \<and> getSpeciesFromCode 3 ''FP3'' = ''Sonar''
   \<and> (\<forall>code. 7 < code \<longrightarrow> getSpeciesFromCode code ''CP3'' = '''')
   \<and> (\<forall>code. 3 < code \<longrightarrow> getSpeciesFromCode code ''FP3'' = '''')"
  by (simp add: getSpeciesFromCode_def lookup_code_def cpod_codes_def fpod_codes_def)

theorem getSpeciesFromCode_table_witness:
  "(7 :: byte) < 8 \<and> getSpeciesFromCode 8 ''CP3'' = ''''
   \<and> (3 :: byte) < 4 \<and> getSpeciesFromCode 4 ''FP3'' = ''''
   \<and> getSpeciesFromCode 255 ''CP3'' = ''''"
proof -
  have a: "(7 :: byte) < 8" and b: "(3 :: byte) < 4" and c: "(7 :: byte) < 255" by simp_all
  from getSpeciesFromCode_table have
    "\<forall>code. 7 < code \<longrightarrow> getSpeciesFromCode code ''CP3'' = ''''"
    "\<forall>code. 3 < code \<longrightarrow> getSpeciesFromCode code ''FP3'' = ''''"
    by blast+
  with a b c show ?thesis by blast
qed

section \<open>Masks and shifts on integers\<close>

lemma mask4: "mask 4 = (15::int)" and mask3: "mask 3 = (7::int)" and mask2: "mask 2 = (3::int)"
  by (simp_all add: mask_eq_exp_minus_1)

lemma and15: "(x::int) AND 15 = x mod 16"
  using take_bit_eq_mask[of 4 x] by (simp add: mask4 take_bit_eq_mod)

lemma and7: "(x::int) AND 7 = x mod 8"
  using take_bit_eq_mask[of 3 x] by (simp add: mask3 take_bit_eq_mod)

lemma and3: "(x::int) AND 3 = x mod 4"
  using take_bit_eq_mask[of 2 x] by (simp add: mask2 take_bit_eq_mod)

lemma and_exp_int: "(x::int) AND 2 ^ n = (if bit x n then 2 ^ n else 0)"
  by (rule bit_eqI) (auto simp add: bit_and_iff bit_exp_iff)

lemma and8: "((x::int) AND 8 = 8) = bit x 3"
  using and_exp_int[of x 3] by (simp split: if_splits)

lemma and32: "((x::int) AND 32 = 32) = bit x 5"
  using and_exp_int[of x 5] by (simp split: if_splits)

lemma bit3_mod16: "bit ((x::int) mod 16) 3 = bit x 3"
  using bit_take_bit_iff[of 4 x 3] by (simp add: take_bit_eq_mod)

lemma ipi_code_eq:
  "(if x AND 0xF = 15 then 65
    else if x AND 0x8 = 8 then push_bit 3 ((x AND 0x7) + 1) else x AND 0x7)
   = ipi_range_class (x mod 16)" for x :: int
proof -
  have m: "x mod 16 mod 8 = x mod 8" by (simp add: mod_mod_cancel)
  have a: "(x mod 16) AND 7 = x AND 7" unfolding and7 by (rule m)
  have b: "bit (x mod 16) 3 = (x AND 8 = 8)" unfolding and8 by (rule bit3_mod16)
  have c: "(x mod 16 = 15) = (x AND 15 = 15)" unfolding and15 by (rule refl)
  show ?thesis
    unfolding ipi_range_class_def a b c by (rule refl)
qed

section \<open>Steps of the FPOD decoder\<close>

lemma at_put: "inb xs i \<Longrightarrow> at (put xs i v) i = v"
  by (simp add: at_def put_def inb_def nat_less_iff)

lemma length_put: "length (put xs i v) = length xs"
  by (simp add: put_def)

lemma inb_put: "inb (put xs i v) j = inb xs j"
  by (simp add: put_def inb_def)

lemma sized_D:
  assumes "columns_sized k dat"
  shows "length (min_col dat) = k" "length (microsec dat) = k" "length (click_no dat) = k"
    "length (ncyc dat) = k" "length (pkat dat) = k" "length (clk_ipi_range dat) = k"
    "length (ipi_pre_max dat) = k" "length (ipi_at_max dat) = k" "length (khz dat) = k"
    "length (amp_at_max dat) = k" "length (amp_reversals dat) = k" "length (duration dat) = k"
    "length (has_wav dat) = k" "length (train_id dat) = k" "length (species dat) = k"
    "length (quality_level dat) = k" "length (echo dat) = k"
  using assms unfolding columns_sized_def by blast+

lemma inb_len: "length xs = k \<Longrightarrow> 0 \<le> i \<Longrightarrow> i < int k \<Longrightarrow> inb xs i"
  by (simp add: inb_def)

lemma sized_inb:
  assumes "columns_sized k dat" and "0 \<le> i" and "i < int k"
  shows "inb (min_col dat) i" "inb (microsec dat) i" "inb (click_no dat) i" "inb (ncyc dat) i"
    "inb (pkat dat) i" "inb (clk_ipi_range dat) i" "inb (ipi_pre_max dat) i"
    "inb (ipi_at_max dat) i" "inb (khz dat) i" "inb (amp_at_max dat) i"
    "inb (amp_reversals dat) i" "inb (duration dat) i" "inb (has_wav dat) i"
    "inb (train_id dat) i" "inb (species dat) i" "inb (quality_level dat) i" "inb (echo dat) i"
  by (rule inb_len [OF _ assms(2,3)], rule sized_D [OF assms(1)])+

lemma fpod_click_ok:
  assumes "columns_sized k dat" and "0 \<le> i" and "i < int k" and "15 \<le> length buf"
  shows "getFPODData_click d2i buf i cm dat = Inr
        (dat\<lparr> min_col := put (min_col dat) i cm,
              microsec := put (microsec dat) i
                (d2i (DMul (DDiv (DInt (uint (constructInt buf 0 3 :: 32 word))) (DInt 200))
                           (DInt 1000))),
              ncyc := put (ncyc dat) i (uint (buf ! 3)),
              pkat := put (pkat dat) i (drop_bit 4 (uint (buf ! 4) AND 0xF0)),
              clk_ipi_range := put (clk_ipi_range dat) i (ipi_range_class (low_nibble (buf ! 4))),
              ipi_pre_max := put (ipi_pre_max dat) i (uint (buf ! 5) + 1),
              ipi_at_max := put (ipi_at_max dat) i (uint (buf ! 6) + 1),
              amp_at_max := put (amp_at_max dat) i (uint (max 2 (buf ! 10))),
              amp_reversals := put (amp_reversals dat) i (uint (buf ! 13) AND 15),
              duration := put (duration dat) i
                (DInt (((uint (buf ! 13) AND 240) * 16 + uint (buf ! 14)) div 5)) \<rparr>)"
proof -
  have l: "\<not> length buf < 15" using assms(4) by simp
  show ?thesis
    unfolding getFPODData_click_def low_nibble_def ipi_code_eq [symmetric]
    by (simp only: sized_inb [OF assms(1-3)] l simp_thms if_False)
qed

lemma fpod_click_block:
  assumes "buf \<noteq> []" and "buf ! 0 < 184"
  shows "getFPODData_block d2i ext pic_ver buf cc cm dat =
     (case getFPODData_click d2i buf (cc + 1) cm dat of
        Inl e \<Rightarrow> Inl e | Inr dat' \<Rightarrow> Inr (cc + 1, cm, dat'))"
proof -
  have "\<not> length buf < 1" using assms(1) by (cases buf) simp_all
  then show ?thesis unfolding getFPODData_block_def using assms(2) by (simp only: if_False if_True)
qed

lemma wav_chunk_loop_12:
  "wav_chunk_loop buf 12 \<lparr> IPI = [], SPL = [] \<rparr> =
     \<lparr> IPI = [buf ! 13, buf ! 11, buf ! 9, buf ! 7, buf ! 5, buf ! 3, buf ! 1],
       SPL = [buf ! 14, buf ! 12, buf ! 10, buf ! 8, buf ! 6, buf ! 4, buf ! 2] \<rparr>"
  by (simp add: wav_chunk_loop.simps)

lemma fpod_minute_block:
  assumes "buf \<noteq> []" and "buf ! 0 = 254"
  shows "getFPODData_block d2i ext pic_ver buf cc cm dat =
     (case getFPODData_minute pic_ver buf dat of
        Inl e \<Rightarrow> Inl e | Inr dat' \<Rightarrow> Inr (cc, cm + 1, dat'))"
proof -
  have "\<not> length buf < 1" using assms(1) by (cases buf) simp_all
  moreover have "\<not> buf ! 0 < 184" "buf ! 0 \<noteq> 249" "buf ! 0 \<noteq> 250"
    unfolding assms(2) by simp_all
  ultimately show ?thesis
    unfolding getFPODData_block_def using assms(2) by simp
qed

lemma fpod_train_block:
  assumes "buf \<noteq> []" and "buf ! 0 = 249"
  shows "getFPODData_block d2i ext pic_ver buf cc cm dat =
     (case getFPODData_train ext buf (cc + 1) dat of
        Inl e \<Rightarrow> Inl e | Inr dat' \<Rightarrow> Inr (cc, cm, dat'))"
proof -
  have "\<not> length buf < 1" using assms(1) by (cases buf) simp_all
  moreover have "\<not> buf ! 0 < 184" unfolding assms(2) by simp
  ultimately show ?thesis
    unfolding getFPODData_block_def using assms(2) by simp
qed

lemma fpod_wav_block:
  assumes "buf \<noteq> []" and "buf ! 0 = 250"
  shows "getFPODData_block d2i ext pic_ver buf cc cm dat =
     (case getFPODData_wav buf cc dat of
        Inl e \<Rightarrow> Inl e | Inr dat' \<Rightarrow> Inr (cc, cm, dat'))"
proof -
  have "\<not> length buf < 1" using assms(1) by (cases buf) simp_all
  moreover have "\<not> buf ! 0 < 184" "buf ! 0 \<noteq> 249" unfolding assms(2) by simp_all
  ultimately show ?thesis
    unfolding getFPODData_block_def using assms(2) by simp
qed

lemma fpod_minute_ok:
  assumes "14 \<le> length buf"
  shows "getFPODData_minute pic_ver buf dat = Inr
     (if pic_ver < 28 \<and> buf ! 11 = 0 \<and> buf ! 13 \<noteq> 0
      then dat\<lparr> temp_deg_c := temp_deg_c dat @ [uint (buf ! 7)],
                bat1 := bat1 dat @ [uint (buf ! 12)],
                bat2 := bat2 dat @ [uint (buf ! 13)] \<rparr>
      else dat\<lparr> temp_deg_c := temp_deg_c dat @ [uint (buf ! 7)],
                bat1 := bat1 dat @ [uint (buf ! 11)],
                bat2 := bat2 dat @ [uint (buf ! 12)] \<rparr>)"
proof -
  have "\<not> length buf < 13" "\<not> length buf < 14" using assms by simp_all
  then show ?thesis unfolding getFPODData_minute_def by simp
qed

lemma fpod_wav_ok:
  assumes "15 \<le> length buf" and "inb (has_wav dat) (cc + 1)"
    and "at (has_wav dat) (cc + 1) \<longrightarrow> wav_data dat \<noteq> []"
  shows "getFPODData_wav buf cc dat = Inr
     (if at (has_wav dat) (cc + 1)
      then dat\<lparr> wav_data := butlast (wav_data dat)
             @ [(last (wav_data dat))
                  \<lparr> chunks := chunks (last (wav_data dat))
                      @ [wav_chunk_loop buf 12 \<lparr> IPI = [], SPL = [] \<rparr>] \<rparr>] \<rparr>
      else dat\<lparr> has_wav := put (has_wav dat) (cc + 1) True,
                wav_data := wav_data dat
                  @ [\<lparr> click = cc + 2,
                       chunks = [wav_chunk_loop buf 12 \<lparr> IPI = [], SPL = [] \<rparr>] \<rparr>] \<rparr>)"
proof -
  have l: "\<not> length buf < 15" using assms(1) by simp
  show ?thesis
  proof (cases "at (has_wav dat) (cc + 1)")
    case True
    then have "wav_data dat \<noteq> []" using assms(3) by simp
    then show ?thesis
      unfolding getFPODData_wav_def using True assms(2) l by simp
  next
    case False
    then show ?thesis
      unfolding getFPODData_wav_def using assms(2) l by simp
  qed
qed

section \<open>Claims about single blocks of the FPOD decoder\<close>

text \<open>
  C3. For a click block (first byte below 184) that the decoder can store, the entry of
  \<open>clk_ipi_range\<close> written for the new click is the three-way function of the low
  nibble of byte 4: 65 for nibble 15, \<open>((nibble AND 7) + 1) << 3\<close> when bit 3 of the
  nibble is set, \<open>nibble AND 7\<close> otherwise; nibble 15 gives 65, nibble 10 gives 24 and
  nibble 3 gives 3.
\<close>

theorem getFPODData_click_ipi_range:
  assumes "columns_sized k dat" and "- 1 \<le> cc" and "cc + 1 < int k"
    and "15 \<le> length buf" and "buf ! 0 < 184"
  shows "\<exists>dat'. getFPODData_block d2i ext pic_ver buf cc cm dat = Inr (cc + 1, cm, dat')
           \<and> at (clk_ipi_range dat') (cc + 1) = ipi_range_class (low_nibble (buf ! 4))
           \<and> ipi_range_class 15 = 65 \<and> ipi_range_class 10 = 24 \<and> ipi_range_class 3 = 3"
proof -
  have i: "0 \<le> cc + 1" using assms(2) by simp
  have ne: "buf \<noteq> []" using assms(4) by auto
  note ok = fpod_click_ok [OF assms(1) i assms(3) assms(4), of d2i cm]
  have blk: "getFPODData_block d2i ext pic_ver buf cc cm dat
      = Inr (cc + 1, cm, projr (getFPODData_click d2i buf (cc + 1) cm dat))"
    unfolding fpod_click_block [OF ne assms(5)] ok by simp
  have fld: "at (clk_ipi_range (projr (getFPODData_click d2i buf (cc + 1) cm dat))) (cc + 1)
      = ipi_range_class (low_nibble (buf ! 4))"
    unfolding ok using sized_inb(6) [OF assms(1) i assms(3)] by (simp add: at_put)
  have ex: "ipi_range_class 15 = 65 \<and> ipi_range_class 10 = 24 \<and> ipi_range_class 3 = 3"
    by (simp add: ipi_range_class_def)
  from blk fld ex show ?thesis by blast
qed

theorem getFPODData_click_ipi_range_witness:
  "columns_sized 2 (FPODData_init 2 []) \<and> (- 1 :: int) \<le> - 1 \<and> (- 1 :: int) + 1 < int 2
   \<and> 15 \<le> length example_click_block \<and> example_click_block ! 0 < 184
   \<and> low_nibble (example_click_block ! 4) = 10
   \<and> (\<exists>dat'. getFPODData_block d2i_example ''FP1'' 0 example_click_block (- 1) (- 1)
                 (FPODData_init 2 []) = Inr (0, - 1, dat')
          \<and> at (clk_ipi_range dat') 0 = 24)"
proof -
  have h1: "columns_sized 2 (FPODData_init 2 [])"
    by (simp add: columns_sized_def FPODData_init_def)
  have h2: "(- 1 :: int) \<le> - 1" and h3: "(- 1 :: int) + 1 < int 2" by simp_all
  have h4: "15 \<le> length example_click_block" and h5: "example_click_block ! 0 < 184"
    by (simp_all add: example_click_block_def)
  have n: "low_nibble (example_click_block ! 4) = 10"
    by (simp add: low_nibble_def example_click_block_def)
  from getFPODData_click_ipi_range [OF h1 h2 h3 h4 h5, of d2i_example "''FP1''" 0 "- 1"]
  obtain dat' where
    r: "getFPODData_block d2i_example ''FP1'' 0 example_click_block (- 1) (- 1)
          (FPODData_init 2 []) = Inr (- 1 + 1, - 1, dat')"
    and c: "at (clk_ipi_range dat') (- 1 + 1) = ipi_range_class (low_nibble (example_click_block ! 4))"
    and v: "ipi_range_class 10 = 24"
    by blast
  have "at (clk_ipi_range dat') 0 = 24" using c v unfolding n by simp
  moreover have "getFPODData_block d2i_example ''FP1'' 0 example_click_block (- 1) (- 1)
          (FPODData_init 2 []) = Inr (0, - 1, dat')" using r by simp
  ultimately show ?thesis using h1 h2 h3 h4 h5 n by blast
qed

text \<open>
  C8. For a minute-marker block (first byte 254) the minute index is advanced by one,
  the temperature appended is byte 7, and the battery voltages appended are bytes 12 and
  13 when the processor version is below 28, byte 11 is 0 and byte 13 is not 0, and
  bytes 11 and 12 in every other case.
\<close>

theorem getFPODData_minute_marker:
  assumes "14 \<le> length buf" and "buf ! 0 = 254"
  shows "\<exists>dat'. getFPODData_block d2i ext pic_ver buf cc cm dat = Inr (cc, cm + 1, dat')
     \<and> temp_deg_c dat' = temp_deg_c dat @ [uint (buf ! 7)]
     \<and> (pic_ver < 28 \<and> buf ! 11 = 0 \<and> buf ! 13 \<noteq> 0 \<longrightarrow>
          bat1 dat' = bat1 dat @ [uint (buf ! 12)] \<and> bat2 dat' = bat2 dat @ [uint (buf ! 13)])
     \<and> (\<not> (pic_ver < 28 \<and> buf ! 11 = 0 \<and> buf ! 13 \<noteq> 0) \<longrightarrow>
          bat1 dat' = bat1 dat @ [uint (buf ! 11)] \<and> bat2 dat' = bat2 dat @ [uint (buf ! 12)])"
proof -
  have ne: "buf \<noteq> []" using assms(1) by auto
  let ?d = "projr (getFPODData_minute pic_ver buf dat)"
  have blk: "getFPODData_block d2i ext pic_ver buf cc cm dat = Inr (cc, cm + 1, ?d)"
    unfolding fpod_minute_block [OF ne assms(2)] fpod_minute_ok [OF assms(1)] by simp
  have t: "temp_deg_c ?d = temp_deg_c dat @ [uint (buf ! 7)]"
    unfolding fpod_minute_ok [OF assms(1)] by simp
  have l: "pic_ver < 28 \<and> buf ! 11 = 0 \<and> buf ! 13 \<noteq> 0 \<longrightarrow>
          bat1 ?d = bat1 dat @ [uint (buf ! 12)] \<and> bat2 ?d = bat2 dat @ [uint (buf ! 13)]"
    unfolding fpod_minute_ok [OF assms(1)] by simp
  have c: "\<not> (pic_ver < 28 \<and> buf ! 11 = 0 \<and> buf ! 13 \<noteq> 0) \<longrightarrow>
          bat1 ?d = bat1 dat @ [uint (buf ! 11)] \<and> bat2 ?d = bat2 dat @ [uint (buf ! 12)]"
    unfolding fpod_minute_ok [OF assms(1)] by simp
  from blk t l c show ?thesis by blast
qed

theorem getFPODData_minute_marker_witness:
  "14 \<le> length example_minute_block \<and> example_minute_block ! 0 = 254
   \<and> (\<exists>dat'. getFPODData_block d2i_example ''FP1'' 20 example_minute_block (- 1) (- 1)
                 (FPODData_init 4 []) = Inr (- 1, 0, dat')
          \<and> temp_deg_c dat' = [21] \<and> bat1 dat' = [90] \<and> bat2 dat' = [88])
   \<and> (\<exists>dat'. getFPODData_block d2i_example ''FP1'' 30 example_minute_block (- 1) (- 1)
                 (FPODData_init 4 []) = Inr (- 1, 0, dat')
          \<and> temp_deg_c dat' = [21] \<and> bat1 dat' = [0] \<and> bat2 dat' = [90])"
proof -
  have h1: "14 \<le> length example_minute_block" and h2: "example_minute_block ! 0 = 254"
    by (simp_all add: example_minute_block_def)
  have v: "example_minute_block ! 7 = 21" "example_minute_block ! 11 = 0"
    "example_minute_block ! 12 = 90" "example_minute_block ! 13 = 88"
    by (simp_all add: example_minute_block_def)
  have e: "temp_deg_c (FPODData_init 4 []) = []" "bat1 (FPODData_init 4 []) = []"
    "bat2 (FPODData_init 4 []) = []"
    by (simp_all add: FPODData_init_def)
  from getFPODData_minute_marker [OF h1 h2, of d2i_example "''FP1''" 20 "- 1" "- 1" "FPODData_init 4 []"]
  obtain d1 where
    r1: "getFPODData_block d2i_example ''FP1'' 20 example_minute_block (- 1) (- 1)
          (FPODData_init 4 []) = Inr (- 1, - 1 + 1, d1)"
    and t1: "temp_deg_c d1 = temp_deg_c (FPODData_init 4 []) @ [uint (example_minute_block ! 7)]"
    and b1: "(20 :: int) < 28 \<and> example_minute_block ! 11 = 0 \<and> example_minute_block ! 13 \<noteq> 0 \<longrightarrow>
          bat1 d1 = bat1 (FPODData_init 4 []) @ [uint (example_minute_block ! 12)]
          \<and> bat2 d1 = bat2 (FPODData_init 4 []) @ [uint (example_minute_block ! 13)]"
    by blast
  have w1: "getFPODData_block d2i_example ''FP1'' 20 example_minute_block (- 1) (- 1)
          (FPODData_init 4 []) = Inr (- 1, 0, d1)
          \<and> temp_deg_c d1 = [21] \<and> bat1 d1 = [90] \<and> bat2 d1 = [88]"
    using r1 t1 b1 unfolding v e by simp
  from getFPODData_minute_marker [OF h1 h2, of d2i_example "''FP1''" 30 "- 1" "- 1" "FPODData_init 4 []"]
  obtain d2 where
    r2: "getFPODData_block d2i_example ''FP1'' 30 example_minute_block (- 1) (- 1)
          (FPODData_init 4 []) = Inr (- 1, - 1 + 1, d2)"
    and t2: "temp_deg_c d2 = temp_deg_c (FPODData_init 4 []) @ [uint (example_minute_block ! 7)]"
    and b2: "\<not> ((30 :: int) < 28 \<and> example_minute_block ! 11 = 0 \<and> example_minute_block ! 13 \<noteq> 0) \<longrightarrow>
          bat1 d2 = bat1 (FPODData_init 4 []) @ [uint (example_minute_block ! 11)]
          \<and> bat2 d2 = bat2 (FPODData_init 4 []) @ [uint (example_minute_block ! 12)]"
    by blast
  have w2: "getFPODData_block d2i_example ''FP1'' 30 example_minute_block (- 1) (- 1)
          (FPODData_init 4 []) = Inr (- 1, 0, d2)
          \<and> temp_deg_c d2 = [21] \<and> bat1 d2 = [0] \<and> bat2 d2 = [90]"
    using r2 t2 b2 unfolding v e by simp
  from h1 h2 w1 w2 show ?thesis by blast
qed

text \<open>
  C5, as the source has it. For a waveform block (first byte 250) the seven pairs are
  read with the IPI at byte offsets 13, 11, 9, 7, 5, 3, 1 and the amplitude at the next
  higher offsets 14, 12, 10, 8, 6, 4, 2, in this order; they are appended as one chunk
  to the series of the next click, keyed \<open>current_click + 2\<close>. On the first waveform
  block for that click (\<open>has_wav\<close> not yet set at index \<open>current_click + 1\<close>) the flag
  is set and the series is opened; on a later one the chunk goes to the series that is
  open, the last one. The hypothesis on \<open>has_wav\<close> is the bookkeeping of the decoder
  itself: the flag of the next click is set only when its series is the last one.
\<close>

theorem getFPODData_wav_block:
  assumes "15 \<le> length buf" and "buf ! 0 = 250" and "inb (has_wav dat) (cc + 1)"
    and "at (has_wav dat) (cc + 1) \<longrightarrow>
           wav_data dat \<noteq> [] \<and> click (last (wav_data dat)) = cc + 2"
  shows "\<exists>dat'. getFPODData_block d2i ext pic_ver buf cc cm dat = Inr (cc, cm, dat')
     \<and> at (has_wav dat') (cc + 1)
     \<and> wav_data dat' \<noteq> []
     \<and> click (last (wav_data dat')) = cc + 2
     \<and> chunks (last (wav_data dat')) =
         (if at (has_wav dat) (cc + 1) then chunks (last (wav_data dat)) else [])
         @ [\<lparr> IPI = [buf ! 13, buf ! 11, buf ! 9, buf ! 7, buf ! 5, buf ! 3, buf ! 1],
               SPL = [buf ! 14, buf ! 12, buf ! 10, buf ! 8, buf ! 6, buf ! 4, buf ! 2] \<rparr>]
     \<and> butlast (wav_data dat') =
         (if at (has_wav dat) (cc + 1) then butlast (wav_data dat) else wav_data dat)"
proof -
  have ne: "buf \<noteq> []" using assms(1) by auto
  have a3: "at (has_wav dat) (cc + 1) \<longrightarrow> wav_data dat \<noteq> []" using assms(4) by simp
  note ok = fpod_wav_ok [OF assms(1) assms(3) a3]
  let ?d = "projr (getFPODData_wav buf cc dat)"
  have blk: "getFPODData_block d2i ext pic_ver buf cc cm dat = Inr (cc, cm, ?d)"
    unfolding fpod_wav_block [OF ne assms(2)] ok by simp
  have f1: "at (has_wav ?d) (cc + 1)"
    unfolding ok using assms(3) by (simp add: at_put)
  have f2: "wav_data ?d \<noteq> []" unfolding ok by simp
  have f3: "click (last (wav_data ?d)) = cc + 2" unfolding ok using assms(4) by simp
  have f4: "chunks (last (wav_data ?d)) =
         (if at (has_wav dat) (cc + 1) then chunks (last (wav_data dat)) else [])
         @ [\<lparr> IPI = [buf ! 13, buf ! 11, buf ! 9, buf ! 7, buf ! 5, buf ! 3, buf ! 1],
               SPL = [buf ! 14, buf ! 12, buf ! 10, buf ! 8, buf ! 6, buf ! 4, buf ! 2] \<rparr>]"
    unfolding ok wav_chunk_loop_12 by simp
  have f5: "butlast (wav_data ?d) =
         (if at (has_wav dat) (cc + 1) then butlast (wav_data dat) else wav_data dat)"
    unfolding ok by simp
  from blk f1 f2 f3 f4 f5 show ?thesis by blast
qed

theorem getFPODData_wav_block_witness:
  "15 \<le> length example_wav_block \<and> example_wav_block ! 0 = 250
   \<and> inb (has_wav example_wav_dat) (- 1 + 1)
   \<and> at (has_wav example_wav_dat) (- 1 + 1)
   \<and> wav_data example_wav_dat \<noteq> []
   \<and> click (last (wav_data example_wav_dat)) = - 1 + 2
   \<and> (\<exists>dat'. getFPODData_block d2i_example ''FP1'' 0 example_wav_block (- 1) (- 1)
                 example_wav_dat = Inr (- 1, - 1, dat')
          \<and> at (has_wav dat') 0
          \<and> click (last (wav_data dat')) = 1
          \<and> chunks (last (wav_data dat')) =
               [\<lparr> IPI = [1, 2, 3, 4, 5, 6, 7], SPL = [7, 6, 5, 4, 3, 2, 1] \<rparr>,
                \<lparr> IPI = [13, 11, 9, 7, 5, 3, 1], SPL = [14, 12, 10, 8, 6, 4, 2] \<rparr>]
          \<and> butlast (wav_data dat') = [])"
proof -
  have h1: "15 \<le> length example_wav_block" and h2: "example_wav_block ! 0 = 250"
    by (simp_all add: example_wav_block_def)
  have hw: "has_wav example_wav_dat = [True]"
    "wav_data example_wav_dat = [\<lparr> click = 1, chunks =
           [\<lparr> IPI = [1, 2, 3, 4, 5, 6, 7], SPL = [7, 6, 5, 4, 3, 2, 1] \<rparr>] \<rparr>]"
    by (simp_all add: example_wav_dat_def)
  have h3: "inb (has_wav example_wav_dat) (- 1 + 1)" unfolding hw by (simp add: inb_def)
  have a: "at (has_wav example_wav_dat) (- 1 + 1)" unfolding hw by (simp add: at_def)
  have b: "wav_data example_wav_dat \<noteq> []"
    and c: "click (last (wav_data example_wav_dat)) = - 1 + 2"
    unfolding hw by simp_all
  have h4: "at (has_wav example_wav_dat) (- 1 + 1) \<longrightarrow>
        wav_data example_wav_dat \<noteq> [] \<and> click (last (wav_data example_wav_dat)) = - 1 + 2"
    using b c by simp
  have v: "[example_wav_block ! 13, example_wav_block ! 11, example_wav_block ! 9,
            example_wav_block ! 7, example_wav_block ! 5, example_wav_block ! 3,
            example_wav_block ! 1] = [13, 11, 9, 7, 5, 3, 1]"
     "[example_wav_block ! 14, example_wav_block ! 12, example_wav_block ! 10,
            example_wav_block ! 8, example_wav_block ! 6, example_wav_block ! 4,
            example_wav_block ! 2] = [14, 12, 10, 8, 6, 4, 2]"
    by (simp_all add: example_wav_block_def)
  from getFPODData_wav_block [OF h1 h2 h3 h4, of d2i_example "''FP1''" 0 "- 1"]
  obtain dat' where
    r: "getFPODData_block d2i_example ''FP1'' 0 example_wav_block (- 1) (- 1)
          example_wav_dat = Inr (- 1, - 1, dat')"
    and f1: "at (has_wav dat') (- 1 + 1)"
    and f3: "click (last (wav_data dat')) = - 1 + 2"
    and f4: "chunks (last (wav_data dat')) =
         (if at (has_wav example_wav_dat) (- 1 + 1)
          then chunks (last (wav_data example_wav_dat)) else [])
         @ [\<lparr> IPI = [example_wav_block ! 13, example_wav_block ! 11, example_wav_block ! 9,
                      example_wav_block ! 7, example_wav_block ! 5, example_wav_block ! 3,
                      example_wav_block ! 1],
               SPL = [example_wav_block ! 14, example_wav_block ! 12, example_wav_block ! 10,
                      example_wav_block ! 8, example_wav_block ! 6, example_wav_block ! 4,
                      example_wav_block ! 2] \<rparr>]"
    and f5: "butlast (wav_data dat') =
         (if at (has_wav example_wav_dat) (- 1 + 1)
          then butlast (wav_data example_wav_dat) else wav_data example_wav_dat)"
    by blast
  have g1: "at (has_wav dat') 0" using f1 by simp
  have g3: "click (last (wav_data dat')) = 1" using f3 by simp
  have g4: "chunks (last (wav_data dat')) =
               [\<lparr> IPI = [1, 2, 3, 4, 5, 6, 7], SPL = [7, 6, 5, 4, 3, 2, 1] \<rparr>,
                \<lparr> IPI = [13, 11, 9, 7, 5, 3, 1], SPL = [14, 12, 10, 8, 6, 4, 2] \<rparr>]"
    using f4 a unfolding v by (simp add: hw)
  have g5: "butlast (wav_data dat') = []" using f5 a by (simp add: hw)
  from h1 h2 h3 a b c r g1 g3 g4 g5 show ?thesis by blast
qed

text \<open>
  C5 as the specification states it, with the pairs at byte offsets (13,12), (11,10)
  down to (1,0), fails: for the block \<open>250, 1, 2, ..., 15\<close> the decoder stores the
  amplitudes 14, 12, ..., 2, while the offsets of the specification give 12, 10, ..., 2
  and the first byte 250.
\<close>

theorem wav_block_offsets_counterexample:
  "getFPODData_block d2i_example ''FP1'' 0 example_wav_block (- 1) (- 1) (FPODData_init 1 [])
     = Inr (- 1, - 1, (FPODData_init 1 [])
          \<lparr> has_wav := [True],
            wav_data := [\<lparr> click = 1, chunks =
              [\<lparr> IPI = [13, 11, 9, 7, 5, 3, 1], SPL = [14, 12, 10, 8, 6, 4, 2] \<rparr>] \<rparr>] \<rparr>)
   \<and> claimed_wav_chunk example_wav_block
     = \<lparr> IPI = [13, 11, 9, 7, 5, 3, 1], SPL = [12, 10, 8, 6, 4, 2, 250] \<rparr>
   \<and> \<lparr> IPI = [13, 11, 9, 7, 5, 3, 1], SPL = [14, 12, 10, 8, 6, 4, 2] \<rparr>
     \<noteq> claimed_wav_chunk example_wav_block"
proof -
  have l: "15 \<le> length example_wav_block" by (simp add: example_wav_block_def)
  have ne: "example_wav_block \<noteq> []" by (simp add: example_wav_block_def)
  have z: "example_wav_block ! 0 = 250" by (simp add: example_wav_block_def)
  have hw: "has_wav (FPODData_init 1 []) = [False]" "wav_data (FPODData_init 1 []) = []"
    by (simp_all add: FPODData_init_def)
  have i: "inb (has_wav (FPODData_init 1 [])) (- 1 + 1)" unfolding hw by (simp add: inb_def)
  have a: "at (has_wav (FPODData_init 1 [])) (- 1 + 1) \<longrightarrow> wav_data (FPODData_init 1 []) \<noteq> []"
    unfolding hw by (simp add: at_def)
  have nh: "\<not> at (has_wav (FPODData_init 1 [])) (- 1 + 1)" unfolding hw by (simp add: at_def)
  have c: "wav_chunk_loop example_wav_block 12 \<lparr> IPI = [], SPL = [] \<rparr>
      = \<lparr> IPI = [13, 11, 9, 7, 5, 3, 1], SPL = [14, 12, 10, 8, 6, 4, 2] \<rparr>"
    unfolding wav_chunk_loop_12 by (simp add: example_wav_block_def)
  have 1: "getFPODData_block d2i_example ''FP1'' 0 example_wav_block (- 1) (- 1) (FPODData_init 1 [])
     = Inr (- 1, - 1, (FPODData_init 1 [])
          \<lparr> has_wav := [True],
            wav_data := [\<lparr> click = 1, chunks =
              [\<lparr> IPI = [13, 11, 9, 7, 5, 3, 1], SPL = [14, 12, 10, 8, 6, 4, 2] \<rparr>] \<rparr>] \<rparr>)"
    unfolding fpod_wav_block [OF ne z] fpod_wav_ok [OF l i a] c
    by (simp add: FPODData_init_def put_def at_def)
  have 2: "claimed_wav_chunk example_wav_block
     = \<lparr> IPI = [13, 11, 9, 7, 5, 3, 1], SPL = [12, 10, 8, 6, 4, 2, 250] \<rparr>"
    by (simp add: claimed_wav_chunk_def example_wav_block_def)
  have 3: "\<lparr> IPI = [13, 11, 9, 7, 5, 3, 1], SPL = [14, 12, 10, 8, 6, 4, 2] \<rparr>
     \<noteq> claimed_wav_chunk example_wav_block"
    unfolding 2 by simp
  from 1 2 3 show ?thesis by blast
qed

section \<open>Running the FPOD decoder over a stream\<close>

lemma fpod_loop_step:
  assumes "0 < n" and "n \<le> length inp"
    and "getFPODData_block d2i ext pv (take n inp) cc cm dat = Inr (cc', cm', dat')"
  shows "getFPODData_loop d2i ext pv n cc cm dat inp
           = getFPODData_loop d2i ext pv n cc' cm' dat' (drop n inp)"
  using assms by (subst getFPODData_loop.simps) simp

lemma fpod_loop_end:
  assumes "0 < n" and "length inp < n"
  shows "getFPODData_loop d2i ext pv n cc cm dat inp = Inr (cc, cm, dat, [])"
  using assms by (subst getFPODData_loop.simps) simp

lemma at_put_other: "0 \<le> i \<Longrightarrow> 0 \<le> j \<Longrightarrow> i \<noteq> j \<Longrightarrow> at (put xs i v) j = at xs j"
  by (simp add: at_def put_def)

lemma train_code_eq:
  "(word_of_int (drop_bit 2 (uint b) AND 3) :: byte) = word_of_int (bit_field b 2 2)"
  by (simp add: bit_field_def and3 drop_bit_eq_div)

lemma train_quality_eq: "uint b AND 3 = bit_field b 0 2"
  by (simp add: bit_field_def and3)

lemma train_echo_eq: "(uint b AND 32 = 32) = bit b 5" for b :: byte
  unfolding and32 by (simp add: bit_uint_iff)

lemma fpod_train_ok:
  assumes "columns_sized k dat" and "0 \<le> i" and "i < int k" and "16 \<le> length buf"
  shows "getFPODData_train ext buf i dat = Inr
        (dat\<lparr> train_id := put (train_id dat) i (uint (buf ! 15)),
              species := put (species dat) i
                (getSpeciesFromCode (word_of_int (bit_field (buf ! 14) 2 2)) ext),
              quality_level := put (quality_level dat) i (bit_field (buf ! 14) 0 2),
              echo := put (echo dat) i (bit (buf ! 14) 5) \<rparr>)"
proof -
  have l: "\<not> length buf < 16" using assms(4) by simp
  show ?thesis
    unfolding getFPODData_train_def train_code_eq train_quality_eq train_echo_eq
    by (simp only: sized_inb [OF assms(1-3)] l simp_thms if_False)
qed

lemma sized_click_upd:
  "columns_sized k
     (dat\<lparr> min_col := put (min_col dat) i a, microsec := put (microsec dat) i b,
           ncyc := put (ncyc dat) i c, pkat := put (pkat dat) i d,
           clk_ipi_range := put (clk_ipi_range dat) i e,
           ipi_pre_max := put (ipi_pre_max dat) i f, ipi_at_max := put (ipi_at_max dat) i g,
           amp_at_max := put (amp_at_max dat) i h,
           amp_reversals := put (amp_reversals dat) i r,
           duration := put (duration dat) i s \<rparr>)
   = columns_sized k dat"
  by (simp add: columns_sized_def length_put)

lemma sized_train_upd:
  "columns_sized k
     (dat\<lparr> train_id := put (train_id dat) i a, species := put (species dat) i b,
           quality_level := put (quality_level dat) i c, echo := put (echo dat) i d \<rparr>)
   = columns_sized k dat"
  by (simp add: columns_sized_def length_put)

lemma sized_minute_upd:
  "columns_sized k (dat\<lparr> temp_deg_c := a, bat1 := b, bat2 := c \<rparr>) = columns_sized k dat"
  by (simp add: columns_sized_def)

lemma fpod_minute_step:
  assumes "14 \<le> length buf" and "buf ! 0 = 254" and "columns_sized k dat"
  obtains d where "getFPODData_block d2i ext pv buf cc cm dat = Inr (cc, cm + 1, d)"
    and "columns_sized k d" and "min_col d = min_col dat" and "train_id d = train_id dat"
    and "species d = species dat" and "quality_level d = quality_level dat"
    and "echo d = echo dat" and "temp_deg_c d = temp_deg_c dat @ [uint (buf ! 7)]"
proof -
  have ne: "buf \<noteq> []" using assms(1) by auto
  let ?d = "projr (getFPODData_minute pv buf dat)"
  note ok = fpod_minute_ok [OF assms(1), of pv dat]
  have 1: "getFPODData_block d2i ext pv buf cc cm dat = Inr (cc, cm + 1, ?d)"
    unfolding fpod_minute_block [OF ne assms(2)] ok by simp
  have 2: "columns_sized k ?d" unfolding ok using assms(3) by (simp add: sized_minute_upd)
  have 3: "min_col ?d = min_col dat" "train_id ?d = train_id dat" "species ?d = species dat"
    "quality_level ?d = quality_level dat" "echo ?d = echo dat"
    "temp_deg_c ?d = temp_deg_c dat @ [uint (buf ! 7)]"
    unfolding ok by simp_all
  from that [OF 1 2 3] show thesis .
qed

lemma fpod_click_step:
  assumes "15 \<le> length buf" and "buf ! 0 < 184" and "columns_sized k dat"
    and "- 1 \<le> cc" and "cc + 1 < int k"
  obtains d where "getFPODData_block d2i ext pv buf cc cm dat = Inr (cc + 1, cm, d)"
    and "columns_sized k d" and "min_col d = put (min_col dat) (cc + 1) cm"
    and "train_id d = train_id dat" and "species d = species dat"
    and "quality_level d = quality_level dat" and "echo d = echo dat"
    and "temp_deg_c d = temp_deg_c dat"
proof -
  have ne: "buf \<noteq> []" using assms(1) by auto
  have i: "0 \<le> cc + 1" using assms(4) by simp
  let ?d = "projr (getFPODData_click d2i buf (cc + 1) cm dat)"
  note ok = fpod_click_ok [OF assms(3) i assms(5) assms(1), of d2i cm]
  have 1: "getFPODData_block d2i ext pv buf cc cm dat = Inr (cc + 1, cm, ?d)"
    unfolding fpod_click_block [OF ne assms(2)] ok by simp
  have 2: "columns_sized k ?d" unfolding ok sum.sel sized_click_upd by (rule assms(3))
  have 3: "min_col ?d = put (min_col dat) (cc + 1) cm" "train_id ?d = train_id dat"
    "species ?d = species dat" "quality_level ?d = quality_level dat" "echo ?d = echo dat"
    "temp_deg_c ?d = temp_deg_c dat"
    unfolding ok by simp_all
  from that [OF 1 2 3] show thesis .
qed

lemma fpod_train_step:
  assumes "16 \<le> length buf" and "buf ! 0 = 249" and "columns_sized k dat"
    and "- 1 \<le> cc" and "cc + 1 < int k"
  obtains d where "getFPODData_block d2i ext pv buf cc cm dat = Inr (cc, cm, d)"
    and "columns_sized k d" and "min_col d = min_col dat"
    and "train_id d = put (train_id dat) (cc + 1) (uint (buf ! 15))"
    and "species d = put (species dat) (cc + 1)
           (getSpeciesFromCode (word_of_int (bit_field (buf ! 14) 2 2)) ext)"
    and "quality_level d = put (quality_level dat) (cc + 1) (bit_field (buf ! 14) 0 2)"
    and "echo d = put (echo dat) (cc + 1) (bit (buf ! 14) 5)"
    and "temp_deg_c d = temp_deg_c dat"
proof -
  have ne: "buf \<noteq> []" using assms(1) by auto
  have i: "0 \<le> cc + 1" using assms(4) by simp
  let ?d = "projr (getFPODData_train ext buf (cc + 1) dat)"
  note ok = fpod_train_ok [OF assms(3) i assms(5) assms(1), of ext]
  have 1: "getFPODData_block d2i ext pv buf cc cm dat = Inr (cc, cm, ?d)"
    unfolding fpod_train_block [OF ne assms(2)] ok by simp
  have 2: "columns_sized k ?d" unfolding ok sum.sel sized_train_upd by (rule assms(3))
  have 3: "min_col ?d = min_col dat"
    "train_id ?d = put (train_id dat) (cc + 1) (uint (buf ! 15))"
    "species ?d = put (species dat) (cc + 1)
           (getSpeciesFromCode (word_of_int (bit_field (buf ! 14) 2 2)) ext)"
    "quality_level ?d = put (quality_level dat) (cc + 1) (bit_field (buf ! 14) 0 2)"
    "echo ?d = put (echo dat) (cc + 1) (bit (buf ! 14) 5)"
    "temp_deg_c ?d = temp_deg_c dat"
    unfolding ok by simp_all
  from that [OF 1 2 3] show thesis .
qed

section \<open>The waveform bookkeeping is maintained\<close>

text \<open>
  The hypothesis of the waveform-block theorem on \<^verbatim>\<open>has_wav\<close> holds throughout a
  decoding run: it holds for a fresh dataset and every block keeps it.
\<close>

lemma wav_inv_init: "wav_inv (- 1) (FPODData_init k h)"
proof -
  have "\<not> at (replicate k False) j" if "inb (replicate k False) j" for j
    using that by (simp add: inb_def at_def nat_less_iff)
  then show ?thesis by (simp add: wav_inv_def FPODData_init_def)
qed

lemma fpod_click_frame:
  "getFPODData_click d2i buf i cm dat = Inr d \<Longrightarrow>
     has_wav d = has_wav dat \<and> wav_data d = wav_data dat"
  by (auto simp add: getFPODData_click_def split: if_splits)

lemma fpod_train_frame:
  "getFPODData_train ext buf i dat = Inr d \<Longrightarrow>
     has_wav d = has_wav dat \<and> wav_data d = wav_data dat"
  by (auto simp add: getFPODData_train_def split: if_splits)

lemma fpod_minute_frame:
  "getFPODData_minute pv buf dat = Inr d \<Longrightarrow>
     has_wav d = has_wav dat \<and> wav_data d = wav_data dat"
  by (auto simp add: getFPODData_minute_def split: if_splits)

lemma fpod_wav_frame:
  assumes "getFPODData_wav buf cc dat = Inr d"
  shows "inb (has_wav dat) (cc + 1)" and "has_wav d = put (has_wav dat) (cc + 1) True"
    and "wav_data d \<noteq> []"
    and "click (last (wav_data d))
           = (if at (has_wav dat) (cc + 1) then click (last (wav_data dat)) else cc + 2)"
proof -
  show i: "inb (has_wav dat) (cc + 1)"
    using assms by (auto simp add: getFPODData_wav_def split: if_splits)
  show "has_wav d = put (has_wav dat) (cc + 1) True"
  proof (cases "at (has_wav dat) (cc + 1)")
    case True
    then have e: "has_wav dat ! nat (cc + 1) = True" by (simp add: at_def)
    have "(has_wav dat)[nat (cc + 1) := has_wav dat ! nat (cc + 1)] = has_wav dat"
      by (rule list_update_id)
    then have "put (has_wav dat) (cc + 1) True = has_wav dat"
      unfolding put_def e .
    then show ?thesis
      using assms True i by (auto simp add: getFPODData_wav_def Let_def split: if_splits)
  next
    case False
    then show ?thesis
      using assms i by (auto simp add: getFPODData_wav_def Let_def split: if_splits)
  qed
  show "wav_data d \<noteq> []"
    using assms i by (auto simp add: getFPODData_wav_def Let_def split: if_splits)
  show "click (last (wav_data d))
           = (if at (has_wav dat) (cc + 1) then click (last (wav_data dat)) else cc + 2)"
    using assms i by (auto simp add: getFPODData_wav_def Let_def split: if_splits)
qed

lemma wav_inv_block:
  assumes "wav_inv cc dat" and "- 1 \<le> cc"
    and "getFPODData_block d2i ext pv buf cc cm dat = Inr (cc', cm', dat')"
  shows "wav_inv cc' dat'"
proof -
  consider
      (click) d where "cc' = cc + 1" "dat' = d" "getFPODData_click d2i buf (cc + 1) cm dat = Inr d"
    | (train) d where "cc' = cc" "dat' = d" "getFPODData_train ext buf (cc + 1) dat = Inr d"
    | (wav) d where "cc' = cc" "dat' = d" "getFPODData_wav buf cc dat = Inr d"
    | (minute) d where "cc' = cc" "dat' = d" "getFPODData_minute pv buf dat = Inr d"
    | (other) "cc' = cc" "dat' = dat"
    using assms(3) unfolding getFPODData_block_def
    by (auto split: if_splits sum.splits)
  then show ?thesis
  proof cases
    case click
    have f: "has_wav dat' = has_wav dat" "wav_data dat' = wav_data dat"
      using fpod_click_frame [OF click(3)] click(2) by simp_all
    have n: "\<forall>j. cc + 1 < j \<and> inb (has_wav dat) j \<longrightarrow> \<not> at (has_wav dat) j"
      using assms(1) by (simp add: wav_inv_def)
    show ?thesis
      unfolding wav_inv_def f click(1) using n by auto
  next
    case train
    have f: "has_wav dat' = has_wav dat" "wav_data dat' = wav_data dat"
      using fpod_train_frame [OF train(3)] train(2) by simp_all
    show ?thesis using assms(1) unfolding wav_inv_def f train(1) .
  next
    case minute
    have f: "has_wav dat' = has_wav dat" "wav_data dat' = wav_data dat"
      using fpod_minute_frame [OF minute(3)] minute(2) by simp_all
    show ?thesis using assms(1) unfolding wav_inv_def f minute(1) .
  next
    case other
    then show ?thesis using assms(1) by simp
  next
    case wav
    note fr = fpod_wav_frame [OF wav(3)]
    have i: "0 \<le> cc + 1" using assms(2) by simp
    have old: "inb (has_wav dat) (cc + 1) \<and> at (has_wav dat) (cc + 1) \<longrightarrow>
         wav_data dat \<noteq> [] \<and> click (last (wav_data dat)) = cc + 2"
      and n: "\<forall>j. cc + 1 < j \<and> inb (has_wav dat) j \<longrightarrow> \<not> at (has_wav dat) j"
      using assms(1) by (simp_all add: wav_inv_def)
    have c: "click (last (wav_data d)) = cc + 2"
      using fr(4) old fr(1) by (cases "at (has_wav dat) (cc + 1)") simp_all
    have b: "inb (has_wav d) j = inb (has_wav dat) j" for j
      unfolding fr(2) by (rule inb_put)
    have o: "at (has_wav d) j = at (has_wav dat) j" if "cc + 1 < j" for j
      unfolding fr(2) using that i by (simp add: at_put_other)
    have "\<forall>j. cc + 1 < j \<and> inb (has_wav d) j \<longrightarrow> \<not> at (has_wav d) j"
      using n b o by simp
    then show ?thesis
      unfolding wav_inv_def wav(1,2) using fr(3) c by simp
  qed
qed

section \<open>The minimal FPOD file\<close>

text \<open>
  C2. The data region is a minute-marker block, a click block, a train block and a
  second click block, of 16 bytes each, decoded into a dataset whose columns hold at
  least two entries. \<^verbatim>\<open>getFPODData\<close> reads all four blocks and returns the last click
  index 1, so the click table has the two rows 0 and 1. The train block is read when
  \<^verbatim>\<open>current_click\<close> is 0 and its annotation is stored at index 1, the second click:
  train id byte 15, species label of bits 2--3 of byte 14, quality level bits 0--1 of
  byte 14, echo flag bit 5 of byte 14; the entries of the first click stay as they
  were. The minute index is incremented once, from \<open>-1\<close> to 0, before the first click:
  both clicks are stored with minute 0, the loop ends with \<^verbatim>\<open>current_min\<close> 0, and one
  temperature sample is added.
\<close>

theorem getFPODData_minimal_file:
  assumes "columns_sized k dat" and "2 \<le> k"
    and "map_of (header dat) ''pic_ver'' = Some pv"
    and "length m = 16" and "m ! 0 = 254"
    and "length c1 = 16" and "c1 ! 0 < 184"
    and "length t = 16" and "t ! 0 = 249"
    and "length c2 = 16" and "c2 ! 0 < 184"
  shows "\<exists>d. getFPODData_loop d2i ext pv 16 (- 1) (- 1) dat (m @ c1 @ t @ c2) = Inr (1, 0, d, [])
     \<and> getFPODData d2i ext 16 dat (m @ c1 @ t @ c2) = Inr (d\<lparr> last_click := 1 \<rparr>, 1, [])
     \<and> toList_filter (d\<lparr> last_click := 1 \<rparr>) = [0, 1]
     \<and> at (train_id d) 1 = uint (t ! 15)
     \<and> at (species d) 1 = getSpeciesFromCode (word_of_int (bit_field (t ! 14) 2 2)) ext
     \<and> at (quality_level d) 1 = bit_field (t ! 14) 0 2
     \<and> at (echo d) 1 = bit (t ! 14) 5
     \<and> at (train_id d) 0 = at (train_id dat) 0
     \<and> at (species d) 0 = at (species dat) 0
     \<and> at (quality_level d) 0 = at (quality_level dat) 0
     \<and> at (echo d) 0 = at (echo dat) 0
     \<and> at (min_col d) 0 = 0 \<and> at (min_col d) 1 = 0
     \<and> temp_deg_c d = temp_deg_c dat @ [uint (m ! 7)]"
proof -
  have k: "(0::int) < int k" "(1::int) < int k" using assms(2) by simp_all
  have lm: "14 \<le> length m" and lc1: "15 \<le> length c1" and lt: "16 \<le> length t"
    and lc2: "15 \<le> length c2"
    using assms(4,6,8,10) by simp_all
  \<comment> \<open>the four blocks in turn\<close>
  obtain d1 where s1: "getFPODData_block d2i ext pv m (- 1) (- 1) dat = Inr (- 1, - 1 + 1, d1)"
    and z1: "columns_sized k d1" and m1: "min_col d1 = min_col dat"
    and t1: "train_id d1 = train_id dat" "species d1 = species dat"
      "quality_level d1 = quality_level dat" "echo d1 = echo dat"
    and e1: "temp_deg_c d1 = temp_deg_c dat @ [uint (m ! 7)]"
    using fpod_minute_step [OF lm assms(5) assms(1)] by metis
  have b2: "(- 1 :: int) \<le> - 1" "(- 1 :: int) + 1 < int k" using k by simp_all
  obtain d2 where s2: "getFPODData_block d2i ext pv c1 (- 1) 0 d1 = Inr (- 1 + 1, 0, d2)"
    and z2: "columns_sized k d2" and m2: "min_col d2 = put (min_col d1) (- 1 + 1) 0"
    and t2: "train_id d2 = train_id d1" "species d2 = species d1"
      "quality_level d2 = quality_level d1" "echo d2 = echo d1"
    and e2: "temp_deg_c d2 = temp_deg_c d1"
    using fpod_click_step [OF lc1 assms(7) z1 b2] by metis
  have b3: "(- 1 :: int) \<le> 0" "(0 :: int) + 1 < int k" using k by simp_all
  obtain d3 where s3: "getFPODData_block d2i ext pv t 0 0 d2 = Inr (0, 0, d3)"
    and z3: "columns_sized k d3" and m3: "min_col d3 = min_col d2"
    and t3: "train_id d3 = put (train_id d2) (0 + 1) (uint (t ! 15))"
      "species d3 = put (species d2) (0 + 1)
         (getSpeciesFromCode (word_of_int (bit_field (t ! 14) 2 2)) ext)"
      "quality_level d3 = put (quality_level d2) (0 + 1) (bit_field (t ! 14) 0 2)"
      "echo d3 = put (echo d2) (0 + 1) (bit (t ! 14) 5)"
    and e3: "temp_deg_c d3 = temp_deg_c d2"
    using fpod_train_step [OF lt assms(9) z2 b3] by metis
  obtain d4 where s4: "getFPODData_block d2i ext pv c2 0 0 d3 = Inr (0 + 1, 0, d4)"
    and z4: "columns_sized k d4" and m4: "min_col d4 = put (min_col d3) (0 + 1) 0"
    and t4: "train_id d4 = train_id d3" "species d4 = species d3"
      "quality_level d4 = quality_level d3" "echo d4 = echo d3"
    and e4: "temp_deg_c d4 = temp_deg_c d3"
    using fpod_click_step [OF lc2 assms(11) z3 b3] by metis
  \<comment> \<open>the loop over the stream\<close>
  have r4: "getFPODData_loop d2i ext pv 16 1 0 d4 [] = Inr (1, 0, d4, [])"
    by (rule fpod_loop_end) simp_all
  have r3: "getFPODData_loop d2i ext pv 16 0 0 d3 c2 = Inr (1, 0, d4, [])"
    using fpod_loop_step [of 16 c2 d2i ext pv 0 0 d3 "0 + 1" 0 d4] s4 assms(10) r4 by simp
  have r2: "getFPODData_loop d2i ext pv 16 0 0 d2 (t @ c2) = Inr (1, 0, d4, [])"
    using fpod_loop_step [of 16 "t @ c2" d2i ext pv 0 0 d2 0 0 d3] s3 assms(8) r3 by simp
  have r1: "getFPODData_loop d2i ext pv 16 (- 1) 0 d1 (c1 @ t @ c2) = Inr (1, 0, d4, [])"
    using fpod_loop_step [of 16 "c1 @ t @ c2" d2i ext pv "- 1" 0 d1 "- 1 + 1" 0 d2]
      s2 assms(6) r2 by simp
  have r0: "getFPODData_loop d2i ext pv 16 (- 1) (- 1) dat (m @ c1 @ t @ c2) = Inr (1, 0, d4, [])"
    using fpod_loop_step [of 16 "m @ c1 @ t @ c2" d2i ext pv "- 1" "- 1" dat "- 1" "- 1 + 1" d1]
      s1 assms(4) r1 by simp
  have g: "getFPODData d2i ext 16 dat (m @ c1 @ t @ c2) = Inr (d4\<lparr> last_click := 1 \<rparr>, 1, [])"
    using r0 assms(3) by (simp add: getFPODData_def header_int_def)
  have f: "toList_filter (d4\<lparr> last_click := 1 \<rparr>) = [0, 1]"
    by (simp add: toList_filter_def upt_rec)
  \<comment> \<open>the entries of the two clicks\<close>
  have i1: "inb (train_id d2) 1" "inb (species d2) 1" "inb (quality_level d2) 1"
    "inb (echo d2) 1" "inb (min_col d3) 1"
    using sized_inb [OF z2, of 1] sized_inb [OF z3, of 1] k by simp_all
  have i0: "inb (min_col d1) 0" using sized_inb [OF z1, of 0] k by simp
  have a1: "at (train_id d4) 1 = uint (t ! 15)"
    "at (species d4) 1 = getSpeciesFromCode (word_of_int (bit_field (t ! 14) 2 2)) ext"
    "at (quality_level d4) 1 = bit_field (t ! 14) 0 2"
    "at (echo d4) 1 = bit (t ! 14) 5"
    unfolding t4 t3 using i1 by (simp_all add: at_put)
  have a0: "at (train_id d4) 0 = at (train_id dat) 0"
    "at (species d4) 0 = at (species dat) 0"
    "at (quality_level d4) 0 = at (quality_level dat) 0"
    "at (echo d4) 0 = at (echo dat) 0"
    unfolding t4 t3 t2 t1 by (simp_all add: at_put_other)
  have n1: "at (min_col d4) 1 = 0" unfolding m4 using i1(5) by (simp add: at_put)
  have n0: "at (min_col d4) 0 = 0"
    unfolding m4 m3 m2 using i0 by (simp add: at_put_other at_put)
  have e: "temp_deg_c d4 = temp_deg_c dat @ [uint (m ! 7)]"
    unfolding e4 e3 e2 e1 by (rule refl)
  from r0 g f a1 a0 n0 n1 e show ?thesis by blast
qed

theorem getFPODData_minimal_file_witness:
  "columns_sized 4 (FPODData_init 4 [(''pic_ver'', 20)]) \<and> (2 :: nat) \<le> 4
   \<and> map_of (header (FPODData_init 4 [(''pic_ver'', 20)])) ''pic_ver'' = Some 20
   \<and> length example_minute_block = 16 \<and> example_minute_block ! 0 = 254
   \<and> length example_click_block = 16 \<and> example_click_block ! 0 < 184
   \<and> length example_train_block = 16 \<and> example_train_block ! 0 = 249
   \<and> (\<exists>d. getFPODData d2i_example ''FP3'' 16 (FPODData_init 4 [(''pic_ver'', 20)])
              (example_minute_block @ example_click_block @ example_train_block
                 @ example_click_block)
            = Inr (d\<lparr> last_click := 1 \<rparr>, 1, [])
          \<and> toList_filter (d\<lparr> last_click := 1 \<rparr>) = [0, 1]
          \<and> at (train_id d) 1 = 9 \<and> at (species d) 1 = ''OtherCet''
          \<and> at (quality_level d) 1 = 3 \<and> at (echo d) 1
          \<and> at (train_id d) 0 = 0 \<and> at (species d) 0 = ''''
          \<and> at (min_col d) 0 = 0 \<and> at (min_col d) 1 = 0
          \<and> temp_deg_c d = [21])"
proof -
  let ?D = "FPODData_init 4 [(''pic_ver'', 20)]"
  have h1: "columns_sized 4 ?D" by (simp add: columns_sized_def FPODData_init_def)
  have h2: "(2 :: nat) \<le> 4" by simp
  have h3: "map_of (header ?D) ''pic_ver'' = Some 20" by (simp add: FPODData_init_def)
  have h4: "length example_minute_block = 16" and h5: "example_minute_block ! 0 = 254"
    by (simp_all add: example_minute_block_def)
  have h6: "length example_click_block = 16" and h7: "example_click_block ! 0 < 184"
    by (simp_all add: example_click_block_def)
  have h8: "length example_train_block = 16" and h9: "example_train_block ! 0 = 249"
    by (simp_all add: example_train_block_def)
  have v: "uint (example_train_block ! 15) = 9"
    "bit_field (example_train_block ! 14) 2 2 = 1"
    "bit_field (example_train_block ! 14) 0 2 = 3"
    "bit (example_train_block ! 14) 5"
    "uint (example_minute_block ! 7) = 21"
    by (simp_all add: example_train_block_def example_minute_block_def bit_field_def)
  have s: "getSpeciesFromCode (word_of_int 1) ''FP3'' = ''OtherCet''"
    by (simp add: getSpeciesFromCode_def lookup_code_def fpod_codes_def)
  have o: "at (train_id ?D) 0 = 0" "at (species ?D) 0 = ''''" "temp_deg_c ?D = []"
    by (simp_all add: FPODData_init_def at_def)
  from getFPODData_minimal_file [OF h1 h2 h3 h4 h5 h6 h7 h8 h9 h6 h7, of d2i_example "''FP3''"]
  obtain d where
    g: "getFPODData d2i_example ''FP3'' 16 ?D
          (example_minute_block @ example_click_block @ example_train_block
             @ example_click_block) = Inr (d\<lparr> last_click := 1 \<rparr>, 1, [])"
    and f: "toList_filter (d\<lparr> last_click := 1 \<rparr>) = [0, 1]"
    and a: "at (train_id d) 1 = uint (example_train_block ! 15)"
      "at (species d) 1
         = getSpeciesFromCode (word_of_int (bit_field (example_train_block ! 14) 2 2)) ''FP3''"
      "at (quality_level d) 1 = bit_field (example_train_block ! 14) 0 2"
      "at (echo d) 1 = bit (example_train_block ! 14) 5"
      "at (train_id d) 0 = at (train_id ?D) 0"
      "at (species d) 0 = at (species ?D) 0"
      "at (min_col d) 0 = 0" "at (min_col d) 1 = 0"
      "temp_deg_c d = temp_deg_c ?D @ [uint (example_minute_block ! 7)]"
    by blast
  have c: "at (train_id d) 1 = 9" "at (species d) 1 = ''OtherCet''"
    "at (quality_level d) 1 = 3" "at (echo d) 1"
    "at (train_id d) 0 = 0" "at (species d) 0 = ''''" "temp_deg_c d = [21]"
    using a v(4) unfolding v(1-3,5) s o by simp_all
  from h1 h2 h3 h4 h5 h6 h7 h8 h9 g f c a(7,8) show ?thesis by blast
qed

section \<open>Steps of the CPOD decoder\<close>

lemma count_replicate: "count_list (replicate n x) x = n"
  by (induction n) simp_all

lemma eof_all_ff:
  assumes "5 \<le> n"
  shows "eof (replicate n 255)"
proof -
  have "n + 2 ^ 64 - 5 = (n - 5) + 2 ^ 64" using assms by simp
  then have "(n + 2 ^ 64 - 5) mod 2 ^ 64 = (n - 5) mod 2 ^ 64" by (simp only: mod_add_self2)
  also have "\<dots> \<le> n - 5" by (rule mod_less_eq_dividend)
  also have "\<dots> \<le> n" by simp
  finally show ?thesis by (simp add: eof_def count_replicate)
qed


lemma cpod_loop_stop:
  assumes "0 < n" and "n \<le> length inp" and "eof (take n inp)" and "fe = 1"
  shows "getCPODData_loop d2i ext n cc cm fe dat inp = Inr (cc, cm, 2, dat, drop n inp)"
  using assms by (subst getCPODData_loop.simps) (auto simp add: Let_def)

lemma cpod_loop_click:
  assumes "0 < n" and "n \<le> length inp" and "\<not> (eof (take n inp) \<and> fe = 1)"
    and "take n inp ! (n - 1) \<noteq> 254"
    and "getCPODData_click d2i ext (take n inp) (cc + 1) cm dat = Inr dat'"
  shows "getCPODData_loop d2i ext n cc cm fe dat inp
     = getCPODData_loop d2i ext n (cc + 1) cm (if eof (take n inp) then fe + 1 else 0) dat'
         (drop n inp)"
  using assms by (subst getCPODData_loop.simps) (auto simp add: Let_def)

lemma cpod_loop_minute:
  assumes "0 < n" and "n \<le> length inp" and "\<not> (eof (take n inp) \<and> fe = 1)"
    and "take n inp ! (n - 1) = 254"
  shows "getCPODData_loop d2i ext n cc cm fe dat inp
     = getCPODData_loop d2i ext n cc (cm + 1) (if eof (take n inp) then fe + 1 else 0) dat
         (drop n inp)"
  using assms by (subst getCPODData_loop.simps) (auto simp add: Let_def)

lemma cpod_click_ok:
  assumes "columns_sized k dat" and "0 \<le> i" and "i < int k" and "6 \<le> length buf"
    and "ext = ''CP3'' \<longrightarrow> 40 \<le> length buf"
  shows "getCPODData_click d2i ext buf i cm dat = Inr
       (let d1 = dat\<lparr> min_col := put (min_col dat) i cm,
                      microsec := put (microsec dat) i
                        (d2i (DMul (DDiv (DInt (uint (constructInt buf 0 3 :: 32 word)))
                                         (DInt 200)) (DInt 1000))),
                      ncyc := put (ncyc dat) i (uint (buf ! 3)),
                      khz := put (khz dat) i (uint (buf ! 5)),
                      amp_at_max := put (amp_at_max dat) i (uint (buf ! 5)) \<rparr>;
            d2 = (if buf ! 5 > 0
                  then d1\<lparr> duration := put (duration d1) i
                             (DDiv (DInt (uint (buf ! 3))) (DInt (uint (buf ! 5)))) \<rparr>
                  else d1);
            d3 = (if ext = ''CP3''
                  then d2\<lparr> train_id := put (train_id d2) i (uint (buf ! 39)),
                            species := put (species d2) i
                              (getSpeciesFromCode (word_of_int (drop_bit 3 (uint (buf ! 36)))) ext),
                            quality_level := put (quality_level d2) i (uint (buf ! 36) AND 3) \<rparr>
                  else d2)
        in d3)"
proof -
  have l: "\<not> length buf < 6" using assms(4) by simp
  have l40: "ext = ''CP3'' \<Longrightarrow> \<not> length buf < 40" using assms(5) by simp
  have g: "\<not> (length buf < 6
         \<or> \<not> (inb (min_col dat) i \<and> inb (microsec dat) i \<and> inb (ncyc dat) i
              \<and> inb (khz dat) i \<and> inb (amp_at_max dat) i)
         \<or> (buf ! 5 > 0 \<and> \<not> inb (duration dat) i)
         \<or> (ext = ''CP3''
             \<and> (length buf < 40
                 \<or> \<not> (inb (train_id dat) i \<and> inb (species dat) i \<and> inb (quality_level dat) i))))"
    using l l40 sized_inb [OF assms(1-3)] by blast
  show ?thesis unfolding getCPODData_click_def by (simp only: g if_False Let_def)
qed

lemma cpod_click_step:
  assumes "columns_sized k dat" and "0 \<le> i" and "i < int k" and "6 \<le> length buf"
    and "ext = ''CP3'' \<longrightarrow> 40 \<le> length buf"
  obtains d where "getCPODData_click d2i ext buf i cm dat = Inr d"
    and "columns_sized k d"
    and "min_col d = put (min_col dat) i cm"
    and "ncyc d = put (ncyc dat) i (uint (buf ! 3))"
    and "khz d = put (khz dat) i (uint (buf ! 5))"
    and "amp_at_max d = put (amp_at_max dat) i (uint (buf ! 5))"
    and "duration d = (if buf ! 5 > 0
           then put (duration dat) i (DDiv (DInt (uint (buf ! 3))) (DInt (uint (buf ! 5))))
           else duration dat)"
    and "train_id d = (if ext = ''CP3'' then put (train_id dat) i (uint (buf ! 39))
           else train_id dat)"
    and "species d = (if ext = ''CP3''
           then put (species dat) i (getSpeciesFromCode (word_of_int (drop_bit 3 (uint (buf ! 36)))) ext)
           else species dat)"
    and "quality_level d = (if ext = ''CP3'' then put (quality_level dat) i (uint (buf ! 36) AND 3)
           else quality_level dat)"
proof -
  let ?d = "projr (getCPODData_click d2i ext buf i cm dat)"
  note ok = cpod_click_ok [OF assms, of d2i cm]
  have 1: "getCPODData_click d2i ext buf i cm dat = Inr ?d" unfolding ok by simp
  have 2: "columns_sized k ?d"
    unfolding ok Let_def using assms(1) by (simp add: columns_sized_def length_put)
  have 3: "min_col ?d = put (min_col dat) i cm"
    "ncyc ?d = put (ncyc dat) i (uint (buf ! 3))"
    "khz ?d = put (khz dat) i (uint (buf ! 5))"
    "amp_at_max ?d = put (amp_at_max dat) i (uint (buf ! 5))"
    "duration ?d = (if buf ! 5 > 0
           then put (duration dat) i (DDiv (DInt (uint (buf ! 3))) (DInt (uint (buf ! 5))))
           else duration dat)"
    "train_id ?d = (if ext = ''CP3'' then put (train_id dat) i (uint (buf ! 39))
           else train_id dat)"
    "species ?d = (if ext = ''CP3''
           then put (species dat) i (getSpeciesFromCode (word_of_int (drop_bit 3 (uint (buf ! 36)))) ext)
           else species dat)"
    "quality_level ?d = (if ext = ''CP3'' then put (quality_level dat) i (uint (buf ! 36) AND 3)
           else quality_level dat)"
    unfolding ok Let_def by simp_all
  from that [OF 1 2 3] show thesis .
qed

section \<open>Terminator blocks and the minimal CPOD file\<close>



text \<open>
  C1. The data region of a CPOD file (\<open>CP1\<close> with 10-byte blocks or \<open>CP3\<close> with
  40-byte blocks) is one click block \<open>b\<close> (not a terminator, last byte not 254)
  followed by two blocks of bytes 0xFF and by any further bytes \<open>rest\<close>. The loop of
  \<^verbatim>\<open>getCPODData\<close> stops at the second terminator with click index 1 and leaves \<open>rest\<close>
  unread; \<^verbatim>\<open>getCPODData\<close> reports \<open>1 - 1 = 0\<close> as the last click, so the click table
  has the one row 0, which holds the click of block \<open>b\<close>. In general the value
  reported is the click index at the end of the loop minus 1.
\<close>

theorem getCPODData_minimal_file:
  assumes "ext = ''CP1'' \<or> ext = ''CP3''" and "n = snd (getBufsize ext)"
    and "length b = n" and "\<not> eof b" and "b ! (n - 1) \<noteq> 254"
    and "columns_sized k dat" and "2 \<le> k"
  shows "\<exists>d. getCPODData_loop d2i ext n (- 1) (- 1) 0 dat
               (b @ replicate n 255 @ replicate n 255 @ rest) = Inr (1, - 1, 2, d, rest)
     \<and> getCPODData d2i ext n dat (b @ replicate n 255 @ replicate n 255 @ rest)
         = Inr (d\<lparr> last_click := 0 \<rparr>, 0, rest)
     \<and> toList_filter (d\<lparr> last_click := 0 \<rparr>) = [0]
     \<and> at (ncyc d) 0 = uint (b ! 3) \<and> at (khz d) 0 = uint (b ! 5)
     \<and> at (ncyc d) 1 = 255 \<and> at (khz d) 1 = 255
     \<and> (\<forall>e s x i cc cm fe d' r.
           getCPODData_loop d2i e s (- 1) (- 1) 0 x i = Inr (cc, cm, fe, d', r) \<longrightarrow>
           getCPODData d2i e s x i = Inr (d'\<lparr> last_click := cc - 1 \<rparr>, cc - 1, r))"
proof -
  let ?T = "replicate n (255 :: byte)"
  have n: "n = 10 \<or> n = 40" and cp3: "ext = ''CP3'' \<longrightarrow> 40 \<le> n"
    using assms(1,2) by (auto simp add: getBufsize_def)
  then have n0: "0 < n" and n5: "5 \<le> n" and n6: "6 \<le> n" by auto
  have k: "(0 :: int) < int k" "(0 :: int) + 1 < int k" using assms(7) by simp_all
  have eT: "eof ?T" by (rule eof_all_ff [OF n5])
  have lT: "?T ! (n - 1) \<noteq> 254" using n0 by simp
  have T3: "?T ! 3 = 255" "?T ! 5 = 255" using n6 by simp_all
  \<comment> \<open>block \<open>b\<close>: the click of index 0\<close>
  have b6: "6 \<le> length b" and b40: "ext = ''CP3'' \<longrightarrow> 40 \<le> length b"
    using n6 cp3 assms(3) by simp_all
  have i0: "(0 :: int) \<le> - 1 + 1" "(- 1 :: int) + 1 < int k" using k by simp_all
  obtain d1 where c1: "getCPODData_click d2i ext b (- 1 + 1) (- 1) dat = Inr d1"
    and z1: "columns_sized k d1"
    and f1: "ncyc d1 = put (ncyc dat) (- 1 + 1) (uint (b ! 3))"
      "khz d1 = put (khz dat) (- 1 + 1) (uint (b ! 5))"
    using cpod_click_step [OF assms(6) i0 b6 b40] by metis
  \<comment> \<open>the first terminator: the click of index 1\<close>
  have t6: "6 \<le> length ?T" and t40: "ext = ''CP3'' \<longrightarrow> 40 \<le> length ?T"
    using n6 cp3 by simp_all
  have i1: "(0 :: int) \<le> 0 + 1" by simp
  obtain d2 where c2: "getCPODData_click d2i ext ?T (0 + 1) (- 1) d1 = Inr d2"
    and f2: "ncyc d2 = put (ncyc d1) (0 + 1) (uint (?T ! 3))"
      "khz d2 = put (khz d1) (0 + 1) (uint (?T ! 5))"
    using cpod_click_step [OF z1 i1 k(2) t6 t40] by metis
  \<comment> \<open>the loop\<close>
  let ?i3 = "?T @ rest" and ?i2 = "?T @ ?T @ rest" and ?i1 = "b @ ?T @ ?T @ rest"
  have tk: "take n ?i3 = ?T" "drop n ?i3 = rest" "take n ?i2 = ?T" "drop n ?i2 = ?i3"
    "take n ?i1 = b" "drop n ?i1 = ?i2"
    using assms(3) by simp_all
  have ln: "n \<le> length ?i3" "n \<le> length ?i2" "n \<le> length ?i1"
    using assms(3) by simp_all
  have r3: "getCPODData_loop d2i ext n 1 (- 1) 1 d2 ?i3 = Inr (1, - 1, 2, d2, rest)"
    using cpod_loop_stop [OF n0 ln(1), of 1 d2i ext 1 "- 1" d2] eT unfolding tk by simp
  have r2: "getCPODData_loop d2i ext n 0 (- 1) 0 d1 ?i2 = Inr (1, - 1, 2, d2, rest)"
    using cpod_loop_click [OF n0 ln(2), of 0 d2i ext 0 "- 1" d1 d2] eT lT c2 r3
    unfolding tk by simp
  have r1: "getCPODData_loop d2i ext n (- 1) (- 1) 0 dat ?i1 = Inr (1, - 1, 2, d2, rest)"
    using cpod_loop_click [OF n0 ln(3), of 0 d2i ext "- 1" "- 1" dat d1] assms(4,5) c1 r2
    unfolding tk by simp
  have g: "getCPODData d2i ext n dat ?i1 = Inr (d2\<lparr> last_click := 0 \<rparr>, 0, rest)"
    using r1 by (simp add: getCPODData_def)
  have fl: "toList_filter (d2\<lparr> last_click := 0 \<rparr>) = [0]"
    by (simp add: toList_filter_def)
  \<comment> \<open>the rows\<close>
  have b0: "inb (ncyc dat) 0" "inb (khz dat) 0" using sized_inb [OF assms(6), of 0] k by simp_all
  have b1: "inb (ncyc d1) 1" "inb (khz d1) 1" using sized_inb [OF z1, of 1] k by simp_all
  have v0: "at (ncyc d2) 0 = uint (b ! 3)" "at (khz d2) 0 = uint (b ! 5)"
    unfolding f2 f1 using b0 by (simp_all add: at_put_other at_put)
  have v1: "at (ncyc d2) 1 = 255" "at (khz d2) 1 = 255"
    unfolding f2 T3 using b1 by (simp_all add: at_put)
  have gen: "\<forall>e s x i cc cm fe d' r.
           getCPODData_loop d2i e s (- 1) (- 1) 0 x i = Inr (cc, cm, fe, d', r) \<longrightarrow>
           getCPODData d2i e s x i = Inr (d'\<lparr> last_click := cc - 1 \<rparr>, cc - 1, r)"
    by (simp add: getCPODData_def)
  from r1 g fl v0 v1 gen show ?thesis by blast
qed

theorem getCPODData_minimal_file_witness:
  "snd (getBufsize ''CP1'') = 10 \<and> length example_cp1_click = 10
   \<and> \<not> eof example_cp1_click \<and> example_cp1_click ! (10 - 1) = 9
   \<and> columns_sized 3 (FPODData_init 3 []) \<and> (2 :: nat) \<le> 3
   \<and> (\<exists>d. getCPODData d2i_example ''CP1'' 10 (FPODData_init 3 [])
              (example_cp1_click @ replicate 10 255 @ replicate 10 255 @ [7, 7])
            = Inr (d\<lparr> last_click := 0 \<rparr>, 0, [7, 7])
          \<and> toList_filter (d\<lparr> last_click := 0 \<rparr>) = [0]
          \<and> at (ncyc d) 0 = 4 \<and> at (khz d) 0 = 6
          \<and> at (ncyc d) 1 = 255 \<and> at (khz d) 1 = 255)"
proof -
  let ?D = "FPODData_init 3 []"
  have h1: "''CP1'' = ''CP1'' \<or> ''CP1'' = ''CP3''" by simp
  have h2: "10 = snd (getBufsize ''CP1'')" by (simp add: getBufsize_def)
  have h3: "length example_cp1_click = 10" by (simp add: example_cp1_click_def)
  have h4: "\<not> eof example_cp1_click" by (simp add: eof_def example_cp1_click_def)
  have l: "example_cp1_click ! (10 - 1) = 9" by (simp add: example_cp1_click_def)
  then have h5: "example_cp1_click ! (10 - 1) \<noteq> 254" by simp
  have h6: "columns_sized 3 ?D" by (simp add: columns_sized_def FPODData_init_def)
  have h7: "(2 :: nat) \<le> 3" by simp
  have v: "uint (example_cp1_click ! 3) = 4" "uint (example_cp1_click ! 5) = 6"
    by (simp_all add: example_cp1_click_def)
  from getCPODData_minimal_file [OF h1 h2 h3 h4 h5 h6 h7, of d2i_example "[7, 7]"]
  obtain d where
    g: "getCPODData d2i_example ''CP1'' 10 ?D
          (example_cp1_click @ replicate 10 255 @ replicate 10 255 @ [7, 7])
        = Inr (d\<lparr> last_click := 0 \<rparr>, 0, [7, 7])"
    and f: "toList_filter (d\<lparr> last_click := 0 \<rparr>) = [0]"
    and a: "at (ncyc d) 0 = uint (example_cp1_click ! 3)"
      "at (khz d) 0 = uint (example_cp1_click ! 5)"
      "at (ncyc d) 1 = 255" "at (khz d) 1 = 255"
    by blast
  have a': "at (ncyc d) 0 = 4" "at (khz d) 0 = 6" using a(1,2) unfolding v .
  from h2 h3 h4 l h6 h7 g f a' a(3,4) show ?thesis by metis
qed

section \<open>Flattening the waveform series\<close>

lemma for_each_append:
  "for_each f (xs @ ys) s =
     (case for_each f xs s of Inl e \<Rightarrow> Inl e | Inr s' \<Rightarrow> for_each f ys s')"
  by (induction xs arbitrary: s) (simp_all split: sum.splits)

lemma for_each_map: "for_each f (map h xs) s = for_each (\<lambda>x. f (h x)) xs s"
  by (induction xs arbitrary: s) (simp_all split: sum.splits)

lemma for_each_concat:
  "for_each (\<lambda>x. for_each g (h x)) xs s = for_each g (concat (map h xs)) s"
  by (induction xs arbitrary: s) (simp_all add: for_each_append split: sum.splits)

lemma wav_row_write:
  "wav_row wav it j = (\<lambda>(cn, ip, sp, pos, tot).
     if pos < length cn \<and> pos < length ip \<and> pos < length sp \<and> write_ok (wav, it, j)
     then Inr (cn[pos := fst (write_row (wav, it, j))],
               ip[pos := fst (snd (write_row (wav, it, j)))],
               sp[pos := snd (snd (write_row (wav, it, j)))], pos + 1, tot + 1)
     else Inl OutOfBounds)"
  by (simp add: wav_row_def write_ok_def write_row_def fun_eq_iff)

lemma wav_loops_flat:
  "for_each (\<lambda>wav. for_each (\<lambda>it. for_each (wav_row wav it) [0..<7]) (rev (chunks wav))) wavs s
     = for_each (\<lambda>(wav, it, j). wav_row wav it j) (wav_writes wavs) s"
proof -
  have inner: "for_each (wav_row wav it) js = for_each (\<lambda>(wav, it, j). wav_row wav it j)
      (map (\<lambda>j. (wav, it, j)) js)" for wav it js
    by (rule ext) (simp add: for_each_map)
  show ?thesis
    unfolding wav_writes_def inner for_each_concat ..
qed

lemma upd_take_Suc: "pos < length xs \<Longrightarrow> take (Suc pos) (xs[pos := a]) = take pos xs @ [a]"
  by (simp add: take_Suc_conv_app_nth)

lemma for_each_writes:
  assumes "length cn = L" and "length ip = L" and "length sp = L" and "pos \<le> L"
  shows "for_each (\<lambda>(wav, it, j). wav_row wav it j) ws (cn, ip, sp, pos, tot) =
    (if list_all write_ok ws \<and> pos + length ws \<le> L
     then Inr (take pos cn @ map (\<lambda>w. fst (write_row w)) ws @ drop (pos + length ws) cn,
               take pos ip @ map (\<lambda>w. fst (snd (write_row w))) ws @ drop (pos + length ws) ip,
               take pos sp @ map (\<lambda>w. snd (snd (write_row w))) ws @ drop (pos + length ws) sp,
               pos + length ws, tot + length ws)
     else Inl OutOfBounds)"
  using assms
proof (induction ws arbitrary: cn ip sp pos tot)
  case Nil
  then show ?case by simp
next
  case (Cons w ws)
  obtain wav it j where w: "w = (wav, it, j)" by (cases w)
  show ?case
  proof (cases "pos < L \<and> write_ok w")
    case True
    then have p: "pos < L" and ok: "write_ok (wav, it, j)" using w by simp_all
    let ?cn = "cn[pos := fst (write_row (wav, it, j))]"
    let ?ip = "ip[pos := fst (snd (write_row (wav, it, j)))]"
    let ?sp = "sp[pos := snd (snd (write_row (wav, it, j)))]"
    have step: "wav_row wav it j (cn, ip, sp, pos, tot) = Inr (?cn, ?ip, ?sp, pos + 1, tot + 1)"
      unfolding wav_row_write using p ok Cons.prems by simp
    have len: "length ?cn = L" "length ?ip = L" "length ?sp = L" "pos + 1 \<le> L"
      using Cons.prems p by simp_all
    have tk: "take (pos + 1) ?cn = take pos cn @ [fst (write_row (wav, it, j))]"
      "take (pos + 1) ?ip = take pos ip @ [fst (snd (write_row (wav, it, j)))]"
      "take (pos + 1) ?sp = take pos sp @ [snd (snd (write_row (wav, it, j)))]"
      using Cons.prems p by (simp_all add: upd_take_Suc)
    have dr: "drop (pos + 1 + length ws) ?cn = drop (pos + 1 + length ws) cn"
      "drop (pos + 1 + length ws) ?ip = drop (pos + 1 + length ws) ip"
      "drop (pos + 1 + length ws) ?sp = drop (pos + 1 + length ws) sp"
      by simp_all
    have "for_each (\<lambda>(wav, it, j). wav_row wav it j) (w # ws) (cn, ip, sp, pos, tot)
        = for_each (\<lambda>(wav, it, j). wav_row wav it j) ws (?cn, ?ip, ?sp, pos + 1, tot + 1)"
      using step w by simp
    also have "\<dots> = (if list_all write_ok ws \<and> pos + 1 + length ws \<le> L
     then Inr (take (pos + 1) ?cn @ map (\<lambda>w. fst (write_row w)) ws
                 @ drop (pos + 1 + length ws) ?cn,
               take (pos + 1) ?ip @ map (\<lambda>w. fst (snd (write_row w))) ws
                 @ drop (pos + 1 + length ws) ?ip,
               take (pos + 1) ?sp @ map (\<lambda>w. snd (snd (write_row w))) ws
                 @ drop (pos + 1 + length ws) ?sp,
               pos + 1 + length ws, tot + 1 + length ws)
     else Inl OutOfBounds)"
      by (rule Cons.IH [OF len])
    also have "\<dots> = (if list_all write_ok (w # ws) \<and> pos + length (w # ws) \<le> L
     then Inr (take pos cn @ map (\<lambda>w. fst (write_row w)) (w # ws)
                 @ drop (pos + length (w # ws)) cn,
               take pos ip @ map (\<lambda>w. fst (snd (write_row w))) (w # ws)
                 @ drop (pos + length (w # ws)) ip,
               take pos sp @ map (\<lambda>w. snd (snd (write_row w))) (w # ws)
                 @ drop (pos + length (w # ws)) sp,
               pos + length (w # ws), tot + length (w # ws))
     else Inl OutOfBounds)"
      unfolding tk dr using ok w by simp
    finally show ?thesis .
  next
    case False
    then have "wav_row wav it j (cn, ip, sp, pos, tot) = Inl OutOfBounds"
      unfolding wav_row_write using w Cons.prems by auto
    then have "for_each (\<lambda>(wav, it, j). wav_row wav it j) (w # ws) (cn, ip, sp, pos, tot)
        = Inl OutOfBounds"
      using w by simp
    moreover have "\<not> (list_all write_ok (w # ws) \<and> pos + length (w # ws) \<le> L)"
      using False by auto
    ultimately show ?thesis by simp
  qed
qed

lemma length_wav_writes:
  "length (wav_writes wavs) = 7 * sum_list (map (\<lambda>w. length (chunks w)) wavs)"
proof -
  have inner: "length (concat (map (\<lambda>it. map (\<lambda>j. (wav, it, j)) [0..<7]) cs)) = 7 * length cs"
    for wav :: WavData and cs :: "WavDataChunk list"
    by (induction cs) simp_all
  show ?thesis
    unfolding wav_writes_def
    by (induction wavs) (simp_all add: inner)
qed

lemma chunk_writes_ok:
  "list_all write_ok (map (\<lambda>j. (wav, it, j)) [0..<7])
     = (7 \<le> length (IPI it) \<and> 7 \<le> length (SPL it))"
proof -
  have "list_all write_ok (map (\<lambda>j. (wav, it, j)) [0..<7])
      = (\<forall>j<7. j < length (IPI it) \<and> j < length (SPL it))"
    by (auto simp add: list_all_iff write_ok_def)
  also have "\<dots> = (7 \<le> length (IPI it) \<and> 7 \<le> length (SPL it))"
  proof
    assume a: "\<forall>j<7. j < length (IPI it) \<and> j < length (SPL it)"
    then have "6 < length (IPI it) \<and> 6 < length (SPL it)" by simp
    then show "7 \<le> length (IPI it) \<and> 7 \<le> length (SPL it)" by simp
  next
    assume "7 \<le> length (IPI it) \<and> 7 \<le> length (SPL it)"
    then show "\<forall>j<7. j < length (IPI it) \<and> j < length (SPL it)" by auto
  qed
  finally show ?thesis .
qed

lemma wav_writes_ok:
  "list_all write_ok (wav_writes wavs)
     = list_all (\<lambda>w. list_all (\<lambda>c. 7 \<le> length (IPI c) \<and> 7 \<le> length (SPL c)) (chunks w)) wavs"
proof -
  have inner: "list_all write_ok (concat (map (\<lambda>it. map (\<lambda>j. (wav, it, j)) [0..<7]) cs))
      = list_all (\<lambda>c. 7 \<le> length (IPI c) \<and> 7 \<le> length (SPL c)) cs"
    for wav :: WavData and cs :: "WavDataChunk list"
    by (induction cs) (simp_all add: chunk_writes_ok del: upt_Suc)
  have rv: "list_all P (rev cs) = list_all P cs" for P :: "WavDataChunk \<Rightarrow> bool" and cs
    by (simp add: list_all_iff)
  show ?thesis
    unfolding wav_writes_def
    by (induction wavs) (simp_all add: inner rv)
qed

lemma wav_writes_rows: "map write_row (wav_writes wavs) = concat (map click_rows wavs)"
proof -
  have "map write_row (concat (map (\<lambda>it. map (\<lambda>j. (wav, it, j)) [0..<7]) cs))
      = concat (map (chunk_rows (click wav)) cs)"
    for wav :: WavData and cs :: "WavDataChunk list"
    by (induction cs) (simp_all add: chunk_rows_def write_row_def del: upt_Suc)
  then show ?thesis
    unfolding wav_writes_def click_rows_def
    by (induction wavs) simp_all
qed

lemma subset_prefix:
  "subset (xs @ ys) [0..<length xs] = Inr xs"
proof -
  have "map (\<lambda>i. (xs @ ys) ! i) [0..<length xs] = xs"
    by (rule nth_equalityI) (simp_all add: nth_append)
  moreover have "list_all (\<lambda>i. i < length (xs @ ys)) [0..<length xs]"
    by (simp add: list_all_iff)
  ultimately show ?thesis unfolding subset_def by simp
qed

lemma subset_nil: "subset xs [] = Inr []"
  by (simp add: subset_def)

lemma wavToList_flat:
  "wavToList wavs =
     (if wav_capacity_ok wavs
      then Inr (map (\<lambda>w. fst (write_row w)) (wav_writes wavs),
                map (\<lambda>w. fst (snd (write_row w))) (wav_writes wavs),
                map (\<lambda>w. snd (snd (write_row w))) (wav_writes wavs))
      else Inl OutOfBounds)"
proof -
  let ?L = "length wavs * 21"
  let ?ws = "wav_writes wavs"
  let ?z = "replicate ?L (0 :: int)"
  have cap: "wav_capacity_ok wavs = (list_all write_ok ?ws \<and> 0 + length ?ws \<le> ?L)"
    unfolding wav_capacity_ok_def wav_writes_ok length_wav_writes by (simp add: mult.commute)
  have run: "for_each (\<lambda>(wav, it, j). wav_row wav it j) ?ws (?z, ?z, ?z, 0, 0) =
    (if wav_capacity_ok wavs
     then Inr (take 0 ?z @ map (\<lambda>w. fst (write_row w)) ?ws @ drop (0 + length ?ws) ?z,
               take 0 ?z @ map (\<lambda>w. fst (snd (write_row w))) ?ws @ drop (0 + length ?ws) ?z,
               take 0 ?z @ map (\<lambda>w. snd (snd (write_row w))) ?ws @ drop (0 + length ?ws) ?z,
               0 + length ?ws, 0 + length ?ws)
     else Inl OutOfBounds)"
    unfolding cap by (rule for_each_writes) simp_all
  show ?thesis
  proof (cases "wav_capacity_ok wavs")
    case True
    have f: "(if 0 < length ?ws then [0..<length ?ws] else []) = [0..<length ?ws]" by simp
    have s: "subset (map g ?ws @ ys) [0..<length ?ws] = Inr (map g ?ws)"
      for g :: "WavData \<times> WavDataChunk \<times> nat \<Rightarrow> int" and ys
      using subset_prefix [of "map g ?ws" ys] by simp
    have "wavToList wavs =
       (let filter = (if 0 < length ?ws then [0..<length ?ws] else [])
        in case (subset (map (\<lambda>w. fst (write_row w)) ?ws @ drop (length ?ws) ?z) filter,
                 subset (map (\<lambda>w. fst (snd (write_row w))) ?ws @ drop (length ?ws) ?z) filter,
                 subset (map (\<lambda>w. snd (snd (write_row w))) ?ws @ drop (length ?ws) ?z) filter) of
             (Inr a, Inr b, Inr c) \<Rightarrow> Inr (a, b, c)
           | _ \<Rightarrow> Inl OutOfBounds)"
      unfolding wavToList_def wav_loops_flat run Let_def using True by simp
    also have "\<dots> = Inr (map (\<lambda>w. fst (write_row w)) ?ws,
                map (\<lambda>w. fst (snd (write_row w))) ?ws,
                map (\<lambda>w. snd (snd (write_row w))) ?ws)"
      unfolding f Let_def s by simp
    finally show ?thesis using True by simp
  next
    case False
    show ?thesis
      unfolding wavToList_def Let_def wav_loops_flat run
      using False by simp
  qed
qed

text \<open>
  The result of \<^verbatim>\<open>wavToList\<close> for every input. The series are flattened in order;
  within the series of one click the chunks are taken last-appended first (a chunk
  appended to a series comes before all rows the series had), and the seven pairs of a
  chunk keep their order, entries 0 to 6. The source sizes its output columns for 21
  rows per series: it returns these rows as long as every chunk holds seven pairs and
  there are, over all series, at most three chunks per series; beyond that a row is
  written outside the columns.
\<close>

lemma wavToList_rows:
  "wavToList wavs =
     (if wav_capacity_ok wavs
      then Inr (map fst (concat (map click_rows wavs)),
                map (\<lambda>r. fst (snd r)) (concat (map click_rows wavs)),
                map (\<lambda>r. snd (snd r)) (concat (map click_rows wavs)))
      else Inl OutOfBounds)
   \<and> click_rows (w\<lparr> chunks := cs @ [c] \<rparr>)
       = chunk_rows (click w) c @ click_rows (w\<lparr> chunks := cs \<rparr>)
   \<and> chunk_rows k c =
       [(k, uint (IPI c ! 0), uint (SPL c ! 0)), (k, uint (IPI c ! 1), uint (SPL c ! 1)),
        (k, uint (IPI c ! 2), uint (SPL c ! 2)), (k, uint (IPI c ! 3), uint (SPL c ! 3)),
        (k, uint (IPI c ! 4), uint (SPL c ! 4)), (k, uint (IPI c ! 5), uint (SPL c ! 5)),
        (k, uint (IPI c ! 6), uint (SPL c ! 6))]"
proof -
  have m: "map (\<lambda>w. fst (write_row w)) ws = map fst (map write_row ws)"
    "map (\<lambda>w. fst (snd (write_row w))) ws = map (\<lambda>r. fst (snd r)) (map write_row ws)"
    "map (\<lambda>w. snd (snd (write_row w))) ws = map (\<lambda>r. snd (snd r)) (map write_row ws)"
    for ws by simp_all
  have 1: "wavToList wavs =
     (if wav_capacity_ok wavs
      then Inr (map fst (concat (map click_rows wavs)),
                map (\<lambda>r. fst (snd r)) (concat (map click_rows wavs)),
                map (\<lambda>r. snd (snd r)) (concat (map click_rows wavs)))
      else Inl OutOfBounds)"
    unfolding wavToList_flat m wav_writes_rows ..
  have 2: "click_rows (w\<lparr> chunks := cs @ [c] \<rparr>)
       = chunk_rows (click w) c @ click_rows (w\<lparr> chunks := cs \<rparr>)"
    by (simp add: click_rows_def)
  have 3: "chunk_rows k c =
       [(k, uint (IPI c ! 0), uint (SPL c ! 0)), (k, uint (IPI c ! 1), uint (SPL c ! 1)),
        (k, uint (IPI c ! 2), uint (SPL c ! 2)), (k, uint (IPI c ! 3), uint (SPL c ! 3)),
        (k, uint (IPI c ! 4), uint (SPL c ! 4)), (k, uint (IPI c ! 5), uint (SPL c ! 5)),
        (k, uint (IPI c ! 6), uint (SPL c ! 6))]"
    by (simp add: chunk_rows_def upt_rec eval_nat_numeral)
  from 1 2 3 show ?thesis by blast
qed

text \<open>Three chunks A, B, C of one click come out as C, B, A.\<close>

lemma wavToList_three_chunks:
  "wav_capacity_ok [\<lparr> click = 5, chunks = [example_chunk_A, example_chunk_B, example_chunk_C] \<rparr>]
   \<and> wavToList [\<lparr> click = 5, chunks = [example_chunk_A, example_chunk_B, example_chunk_C] \<rparr>]
     = Inr ([5, 5, 5, 5, 5, 5, 5, 5, 5, 5, 5, 5, 5, 5, 5, 5, 5, 5, 5, 5, 5],
            [31, 32, 33, 34, 35, 36, 37, 21, 22, 23, 24, 25, 26, 27, 11, 12, 13, 14, 15, 16, 17],
            [131, 132, 133, 134, 135, 136, 137, 121, 122, 123, 124, 125, 126, 127,
             111, 112, 113, 114, 115, 116, 117])"
proof -
  let ?w = "\<lparr> click = 5, chunks = [example_chunk_A, example_chunk_B, example_chunk_C] \<rparr>"
  have c: "wav_capacity_ok [?w]"
    by (simp add: wav_capacity_ok_def example_chunk_A_def example_chunk_B_def
        example_chunk_C_def)
  have r: "concat (map click_rows [?w]) =
     [(5, 31, 131), (5, 32, 132), (5, 33, 133), (5, 34, 134), (5, 35, 135), (5, 36, 136),
      (5, 37, 137), (5, 21, 121), (5, 22, 122), (5, 23, 123), (5, 24, 124), (5, 25, 125),
      (5, 26, 126), (5, 27, 127), (5, 11, 111), (5, 12, 112), (5, 13, 113), (5, 14, 114),
      (5, 15, 115), (5, 16, 116), (5, 17, 117)]"
    by (simp add: click_rows_def chunk_rows_def upt_rec example_chunk_A_def
        example_chunk_B_def example_chunk_C_def)
  from wavToList_rows [of "[?w]"]
  have "wavToList [?w] =
     (if wav_capacity_ok [?w]
      then Inr (map fst (concat (map click_rows [?w])),
                map (\<lambda>r. fst (snd r)) (concat (map click_rows [?w])),
                map (\<lambda>r. snd (snd r)) (concat (map click_rows [?w])))
      else Inl OutOfBounds)"
    by blast
  then show ?thesis unfolding r using c by simp
qed

section \<open>More than three waveform blocks for one click\<close>

lemma fpod_wav_first:
  assumes "15 \<le> length buf" and "buf ! 0 = 250" and "columns_sized k dat"
    and "- 1 \<le> cc" and "cc + 1 < int k" and "\<not> at (has_wav dat) (cc + 1)"
  obtains d where "getFPODData_block d2i ext pv buf cc cm dat = Inr (cc, cm, d)"
    and "columns_sized k d" and "at (has_wav d) (cc + 1)"
    and "wav_data d = wav_data dat
           @ [\<lparr> click = cc + 2,
                chunks = [wav_chunk_loop buf 12 \<lparr> IPI = [], SPL = [] \<rparr>] \<rparr>]"
proof -
  have ne: "buf \<noteq> []" using assms(1) by auto
  have i: "0 \<le> cc + 1" using assms(4) by simp
  have b: "inb (has_wav dat) (cc + 1)" by (rule sized_inb(13) [OF assms(3) i assms(5)])
  have h: "at (has_wav dat) (cc + 1) \<longrightarrow> wav_data dat \<noteq> []" using assms(6) by simp
  let ?d = "projr (getFPODData_wav buf cc dat)"
  note ok = fpod_wav_ok [OF assms(1) b h]
  have 1: "getFPODData_block d2i ext pv buf cc cm dat = Inr (cc, cm, ?d)"
    unfolding fpod_wav_block [OF ne assms(2)] ok by simp
  have 2: "columns_sized k ?d"
    unfolding ok using assms(3) by (simp add: columns_sized_def length_put)
  have 3: "at (has_wav ?d) (cc + 1)"
    unfolding ok using b assms(6) by (simp add: at_put)
  have 4: "wav_data ?d = wav_data dat
           @ [\<lparr> click = cc + 2,
                chunks = [wav_chunk_loop buf 12 \<lparr> IPI = [], SPL = [] \<rparr>] \<rparr>]"
    unfolding ok using assms(6) by simp
  from that [OF 1 2 3 4] show thesis .
qed

lemma fpod_wav_later:
  assumes "15 \<le> length buf" and "buf ! 0 = 250" and "columns_sized k dat"
    and "- 1 \<le> cc" and "cc + 1 < int k" and "at (has_wav dat) (cc + 1)"
    and "wav_data dat = xs @ [x]"
  obtains d where "getFPODData_block d2i ext pv buf cc cm dat = Inr (cc, cm, d)"
    and "columns_sized k d" and "at (has_wav d) (cc + 1)"
    and "wav_data d = xs
           @ [x\<lparr> chunks := chunks x @ [wav_chunk_loop buf 12 \<lparr> IPI = [], SPL = [] \<rparr>] \<rparr>]"
proof -
  have ne: "buf \<noteq> []" using assms(1) by auto
  have i: "0 \<le> cc + 1" using assms(4) by simp
  have b: "inb (has_wav dat) (cc + 1)" by (rule sized_inb(13) [OF assms(3) i assms(5)])
  have h: "at (has_wav dat) (cc + 1) \<longrightarrow> wav_data dat \<noteq> []" using assms(7) by simp
  let ?d = "projr (getFPODData_wav buf cc dat)"
  note ok = fpod_wav_ok [OF assms(1) b h]
  have 1: "getFPODData_block d2i ext pv buf cc cm dat = Inr (cc, cm, ?d)"
    unfolding fpod_wav_block [OF ne assms(2)] ok by simp
  have 2: "columns_sized k ?d"
    unfolding ok using assms(3) by (simp add: columns_sized_def length_put)
  have 3: "at (has_wav ?d) (cc + 1)"
    unfolding ok using assms(6) by simp
  have 4: "wav_data ?d = xs
           @ [x\<lparr> chunks := chunks x @ [wav_chunk_loop buf 12 \<lparr> IPI = [], SPL = [] \<rparr>] \<rparr>]"
    unfolding ok using assms(6) by (simp add: assms(7))
  from that [OF 1 2 3 4] show thesis .
qed

lemma fpod_click_step_wav:
  assumes "15 \<le> length buf" and "buf ! 0 < 184" and "columns_sized k dat"
    and "- 1 \<le> cc" and "cc + 1 < int k"
  obtains d where "getFPODData_block d2i ext pv buf cc cm dat = Inr (cc + 1, cm, d)"
    and "wav_data d = wav_data dat"
proof -
  have ne: "buf \<noteq> []" using assms(1) by auto
  have i: "0 \<le> cc + 1" using assms(4) by simp
  let ?d = "projr (getFPODData_click d2i buf (cc + 1) cm dat)"
  note ok = fpod_click_ok [OF assms(3) i assms(5) assms(1), of d2i cm]
  have 1: "getFPODData_block d2i ext pv buf cc cm dat = Inr (cc + 1, cm, ?d)"
    unfolding fpod_click_block [OF ne assms(2)] ok by simp
  have 2: "wav_data ?d = wav_data dat" unfolding ok by simp
  from that [OF 1 2] show thesis .
qed

lemma wavToList_four_chunks:
  "wavToList [\<lparr> click = n, chunks = [k1, k2, k3, k4] \<rparr>] = Inl OutOfBounds"
proof -
  have "\<not> wav_capacity_ok [\<lparr> click = n, chunks = [k1, k2, k3, k4] \<rparr>]"
    by (simp add: wav_capacity_ok_def)
  then show ?thesis using wavToList_rows [of "[\<lparr> click = n, chunks = [k1, k2, k3, k4] \<rparr>]"]
    by simp
qed

text \<open>
  Four waveform blocks and then the click they belong to, decoded into a fresh dataset:
  the one series of the click holds four chunks, 28 rows to flatten, and the columns
  of \<^verbatim>\<open>wavToList\<close> have 21 entries.
\<close>

lemma fpod_four_wav_blocks:
  assumes "columns_sized k dat" and "1 \<le> k"
    and "map_of (header dat) ''pic_ver'' = Some pv"
    and "wav_data dat = []" and "\<not> at (has_wav dat) 0"
    and "length w1 = 16" and "w1 ! 0 = 250" and "length w2 = 16" and "w2 ! 0 = 250"
    and "length w3 = 16" and "w3 ! 0 = 250" and "length w4 = 16" and "w4 ! 0 = 250"
    and "length c = 16" and "c ! 0 < 184"
  shows "\<exists>d. getFPODData d2i ext 16 dat (w1 @ w2 @ w3 @ w4 @ c) = Inr (d, 0, [])
     \<and> wav_data d =
         [\<lparr> click = 1, chunks =
             [wav_chunk_loop w1 12 \<lparr> IPI = [], SPL = [] \<rparr>,
              wav_chunk_loop w2 12 \<lparr> IPI = [], SPL = [] \<rparr>,
              wav_chunk_loop w3 12 \<lparr> IPI = [], SPL = [] \<rparr>,
              wav_chunk_loop w4 12 \<lparr> IPI = [], SPL = [] \<rparr>] \<rparr>]
     \<and> toList_wav d = Inl OutOfBounds"
proof -
  let ?K = "\<lambda>w. wav_chunk_loop w 12 \<lparr> IPI = [], SPL = [] \<rparr>"
  have b: "(- 1 :: int) \<le> - 1" "(- 1 :: int) + 1 < int k" using assms(2) by simp_all
  have l: "15 \<le> length w1" "15 \<le> length w2" "15 \<le> length w3" "15 \<le> length w4"
    "15 \<le> length c"
    using assms(6,8,10,12,14) by simp_all
  have n0: "\<not> at (has_wav dat) (- 1 + 1)" using assms(5) by simp
  obtain d1 where s1: "getFPODData_block d2i ext pv w1 (- 1) (- 1) dat = Inr (- 1, - 1, d1)"
    and z1: "columns_sized k d1" and a1: "at (has_wav d1) (- 1 + 1)"
    and r1: "wav_data d1 = wav_data dat @ [\<lparr> click = - 1 + 2, chunks = [?K w1] \<rparr>]"
    using fpod_wav_first [OF l(1) assms(7) assms(1) b n0] by metis
  have v1: "wav_data d1 = [] @ [\<lparr> click = 1, chunks = [?K w1] \<rparr>]"
    unfolding r1 assms(4) by simp
  obtain d2 where s2: "getFPODData_block d2i ext pv w2 (- 1) (- 1) d1 = Inr (- 1, - 1, d2)"
    and z2: "columns_sized k d2" and a2: "at (has_wav d2) (- 1 + 1)"
    and r2: "wav_data d2 = []
       @ [\<lparr> click = 1, chunks = [?K w1] \<rparr> \<lparr> chunks := chunks \<lparr> click = 1, chunks = [?K w1] \<rparr> @ [?K w2] \<rparr>]"
    using fpod_wav_later [OF l(2) assms(9) z1 b a1 v1] by metis
  have v2: "wav_data d2 = [] @ [\<lparr> click = 1, chunks = [?K w1, ?K w2] \<rparr>]"
    unfolding r2 by simp
  obtain d3 where s3: "getFPODData_block d2i ext pv w3 (- 1) (- 1) d2 = Inr (- 1, - 1, d3)"
    and z3: "columns_sized k d3" and a3: "at (has_wav d3) (- 1 + 1)"
    and r3: "wav_data d3 = []
       @ [\<lparr> click = 1, chunks = [?K w1, ?K w2] \<rparr>
            \<lparr> chunks := chunks \<lparr> click = 1, chunks = [?K w1, ?K w2] \<rparr> @ [?K w3] \<rparr>]"
    using fpod_wav_later [OF l(3) assms(11) z2 b a2 v2] by metis
  have v3: "wav_data d3 = [] @ [\<lparr> click = 1, chunks = [?K w1, ?K w2, ?K w3] \<rparr>]"
    unfolding r3 by simp
  obtain d4 where s4: "getFPODData_block d2i ext pv w4 (- 1) (- 1) d3 = Inr (- 1, - 1, d4)"
    and z4: "columns_sized k d4"
    and r4: "wav_data d4 = []
       @ [\<lparr> click = 1, chunks = [?K w1, ?K w2, ?K w3] \<rparr>
            \<lparr> chunks := chunks \<lparr> click = 1, chunks = [?K w1, ?K w2, ?K w3] \<rparr> @ [?K w4] \<rparr>]"
    using fpod_wav_later [OF l(4) assms(13) z3 b a3 v3] by metis
  have v4: "wav_data d4 = [\<lparr> click = 1, chunks = [?K w1, ?K w2, ?K w3, ?K w4] \<rparr>]"
    unfolding r4 by simp
  obtain d5 where s5: "getFPODData_block d2i ext pv c (- 1) (- 1) d4 = Inr (- 1 + 1, - 1, d5)"
    and r5: "wav_data d5 = wav_data d4"
    using fpod_click_step_wav [OF l(5) assms(15) z4 b] by metis
  \<comment> \<open>the loop over the stream\<close>
  have e5: "getFPODData_loop d2i ext pv 16 0 (- 1) d5 [] = Inr (0, - 1, d5, [])"
    by (rule fpod_loop_end) simp_all
  have e4: "getFPODData_loop d2i ext pv 16 (- 1) (- 1) d4 c = Inr (0, - 1, d5, [])"
    using fpod_loop_step [of 16 c d2i ext pv "- 1" "- 1" d4 "- 1 + 1" "- 1" d5]
      s5 assms(14) e5 by simp
  have e3: "getFPODData_loop d2i ext pv 16 (- 1) (- 1) d3 (w4 @ c) = Inr (0, - 1, d5, [])"
    using fpod_loop_step [of 16 "w4 @ c" d2i ext pv "- 1" "- 1" d3 "- 1" "- 1" d4]
      s4 assms(12) e4 by simp
  have e2: "getFPODData_loop d2i ext pv 16 (- 1) (- 1) d2 (w3 @ w4 @ c) = Inr (0, - 1, d5, [])"
    using fpod_loop_step [of 16 "w3 @ w4 @ c" d2i ext pv "- 1" "- 1" d2 "- 1" "- 1" d3]
      s3 assms(10) e3 by simp
  have e1: "getFPODData_loop d2i ext pv 16 (- 1) (- 1) d1 (w2 @ w3 @ w4 @ c)
      = Inr (0, - 1, d5, [])"
    using fpod_loop_step [of 16 "w2 @ w3 @ w4 @ c" d2i ext pv "- 1" "- 1" d1 "- 1" "- 1" d2]
      s2 assms(8) e2 by simp
  have e0: "getFPODData_loop d2i ext pv 16 (- 1) (- 1) dat (w1 @ w2 @ w3 @ w4 @ c)
      = Inr (0, - 1, d5, [])"
    using fpod_loop_step [of 16 "w1 @ w2 @ w3 @ w4 @ c" d2i ext pv "- 1" "- 1" dat "- 1" "- 1" d1]
      s1 assms(6) e1 by simp
  have g: "getFPODData d2i ext 16 dat (w1 @ w2 @ w3 @ w4 @ c)
      = Inr (d5\<lparr> last_click := 0 \<rparr>, 0, [])"
    using e0 assms(3) by (simp add: getFPODData_def header_int_def)
  have w: "wav_data (d5\<lparr> last_click := 0 \<rparr>)
      = [\<lparr> click = 1, chunks = [?K w1, ?K w2, ?K w3, ?K w4] \<rparr>]"
    using r5 v4 by simp
  have t: "toList_wav (d5\<lparr> last_click := 0 \<rparr>) = Inl OutOfBounds"
    unfolding toList_wav_def w by (rule wavToList_four_chunks)
  from g w t show ?thesis by blast
qed

text \<open>
  C4 (code evaluated at the failing input). The data region of an FP1 file is four
  waveform blocks followed by one click block; the dataset is the fresh one of
  \<^verbatim>\<open>readFPOD\<close> for five blocks. Decoding succeeds and gives the click one series of
  four chunks. The claim asks for its 28 rows, last-appended chunk first; the columns
  of \<^verbatim>\<open>wavToList\<close> are sized for one series, 21 rows, and the rows 21 to 27 are
  written outside them.
\<close>

theorem wavToList_four_chunks_overflow:
  "\<exists>d. getFPODData d2i_example ''FP1'' 16 (FPODData_init 5 [(''pic_ver'', 20)])
          (example_wav_block @ example_wav_block @ example_wav_block @ example_wav_block
             @ example_click_block) = Inr (d, 0, [])
     \<and> wav_data d =
         [\<lparr> click = 1, chunks =
             [\<lparr> IPI = [13, 11, 9, 7, 5, 3, 1], SPL = [14, 12, 10, 8, 6, 4, 2] \<rparr>,
              \<lparr> IPI = [13, 11, 9, 7, 5, 3, 1], SPL = [14, 12, 10, 8, 6, 4, 2] \<rparr>,
              \<lparr> IPI = [13, 11, 9, 7, 5, 3, 1], SPL = [14, 12, 10, 8, 6, 4, 2] \<rparr>,
              \<lparr> IPI = [13, 11, 9, 7, 5, 3, 1], SPL = [14, 12, 10, 8, 6, 4, 2] \<rparr>] \<rparr>]
     \<and> length (concat (map click_rows (wav_data d))) = 28
     \<and> length (wav_data d) * 21 = 21
     \<and> toList_wav d = Inl OutOfBounds"
proof -
  let ?D = "FPODData_init 5 [(''pic_ver'', 20)]"
  have h1: "columns_sized 5 ?D" by (simp add: columns_sized_def FPODData_init_def)
  have h2: "(1 :: nat) \<le> 5" by simp
  have h3: "map_of (header ?D) ''pic_ver'' = Some 20" by (simp add: FPODData_init_def)
  have h4: "wav_data ?D = []" by (simp add: FPODData_init_def)
  have h5: "\<not> at (has_wav ?D) 0" by (simp add: FPODData_init_def at_def)
  have w: "length example_wav_block = 16" "example_wav_block ! 0 = 250"
    by (simp_all add: example_wav_block_def)
  have c: "length example_click_block = 16" "example_click_block ! 0 < 184"
    by (simp_all add: example_click_block_def)
  have k: "wav_chunk_loop example_wav_block 12 \<lparr> IPI = [], SPL = [] \<rparr>
      = \<lparr> IPI = [13, 11, 9, 7, 5, 3, 1], SPL = [14, 12, 10, 8, 6, 4, 2] \<rparr>"
    unfolding wav_chunk_loop_12 by (simp add: example_wav_block_def)
  from fpod_four_wav_blocks [OF h1 h2 h3 h4 h5 w w w w c, of d2i_example "''FP1''"]
  obtain d where
    g: "getFPODData d2i_example ''FP1'' 16 ?D
          (example_wav_block @ example_wav_block @ example_wav_block @ example_wav_block
             @ example_click_block) = Inr (d, 0, [])"
    and v: "wav_data d =
         [\<lparr> click = 1, chunks =
             [\<lparr> IPI = [13, 11, 9, 7, 5, 3, 1], SPL = [14, 12, 10, 8, 6, 4, 2] \<rparr>,
              \<lparr> IPI = [13, 11, 9, 7, 5, 3, 1], SPL = [14, 12, 10, 8, 6, 4, 2] \<rparr>,
              \<lparr> IPI = [13, 11, 9, 7, 5, 3, 1], SPL = [14, 12, 10, 8, 6, 4, 2] \<rparr>,
              \<lparr> IPI = [13, 11, 9, 7, 5, 3, 1], SPL = [14, 12, 10, 8, 6, 4, 2] \<rparr>] \<rparr>]"
    and t: "toList_wav d = Inl OutOfBounds"
    unfolding k by blast
  have n: "length (concat (map click_rows (wav_data d))) = 28"
    unfolding v by (simp add: click_rows_def chunk_rows_def)
  have m: "length (wav_data d) * 21 = 21" unfolding v by simp
  from g v n m t show ?thesis by blast
qed

end
